theory Spec2Isabelle
  imports Complex_Main "HOL-Library.Sublist"
begin

section \<open>The stream ingestion engine (lib/llm.ts, streamCompletion)\<close>

subsection \<open>Values crossing the engine's boundary\<close>

text \<open>
  A JavaScript error object, as far as the code reads it: \<open>error.name\<close> and
  \<open>error.message\<close>. \<open>new Error(m)\<close> has the name \<open>Error\<close>; the rejection of an
  aborted \<open>fetch\<close> or \<open>read\<close> is a \<open>DOMException\<close> named \<open>AbortError\<close>.
\<close>

record js_error =
  name :: string
  message :: string

definition new_Error :: "string \<Rightarrow> js_error" where
  "new_Error m = \<lparr>name = ''Error'', message = m\<rparr>"

text \<open>
  The object \<open>choices[0].delta\<close> of a streamed event and the object
  \<open>choices[0].message\<close> of a non-streamed document have the same three optional text
  fields. The fields carry the prefix \<open>w_\<close> because \<open>content\<close> is also a field
  of a conversation turn.
\<close>

record wire_message =
  w_content :: "string option"
  w_reasoning_content :: "string option"
  w_reasoning :: "string option"

text \<open>\<open>a || b\<close> on an optional string: \<open>undefined\<close> and the empty string are falsy.\<close>

definition js_or :: "string option \<Rightarrow> string \<Rightarrow> string" where
  "js_or a b = (case a of None \<Rightarrow> b | Some s \<Rightarrow> if s = [] then b else s)"

definition deltaContent :: "wire_message \<Rightarrow> string" where
  "deltaContent d = js_or (w_content d) []"

definition deltaReasoning :: "wire_message \<Rightarrow> string" where
  "deltaReasoning d = js_or (w_reasoning_content d) (js_or (w_reasoning d) [])"

text \<open>The statistics record handed to \<open>onUpdate\<close> and \<open>onFinish\<close>.\<close>

record engine_stats =
  tokenCount :: nat
  duration :: real
  tps :: real

text \<open>
  The three callbacks of \<open>StreamOptions\<close>. A run of \<open>streamCompletion\<close> is modelled
  by the list of callback invocations it makes, in order.
\<close>

datatype notification =
    OnUpdate string engine_stats
  | OnFinish string engine_stats
  | OnError js_error

subsection \<open>The channel merge and the throttle\<close>

text \<open>
  The local variables of the streaming branch. \<open>ticks\<close> counts the calls of
  \<open>Date.now()\<close> made so far: the \<open>n\<close>-th call returns \<open>clock n\<close> (milliseconds).
  \<open>emitted\<close> collects the callback invocations.
\<close>

record stream_state =
  accumulatedContent :: string
  lastUiUpdate :: int
  streamTokenCount :: nat
  hasStartedReasoning :: bool
  hasEndedReasoning :: bool
  ticks :: nat
  emitted :: "notification list"

definition per_second :: "nat \<Rightarrow> real \<Rightarrow> real" where
  "per_second n d = (if d > 0 then real n / d else 0)"

text \<open>Lines 138-144: the reasoning delta, evaluated first.\<close>

definition add_reasoning :: "string \<Rightarrow> stream_state \<Rightarrow> stream_state" where
  "add_reasoning r st =
     (if r \<noteq> [] then
        (let st1 = (if \<not> hasStartedReasoning st
                    then st\<lparr>accumulatedContent := accumulatedContent st @ ''<think>'',
                            hasStartedReasoning := True\<rparr>
                    else st)
         in st1\<lparr>accumulatedContent := accumulatedContent st1 @ r\<rparr>)
      else st)"

text \<open>Lines 146-152: the answer delta.\<close>

definition add_content :: "string \<Rightarrow> stream_state \<Rightarrow> stream_state" where
  "add_content c st =
     (if c \<noteq> [] then
        (let st1 = (if hasStartedReasoning st \<and> \<not> hasEndedReasoning st
                    then st\<lparr>accumulatedContent := accumulatedContent st @ ''</think>'',
                            hasEndedReasoning := True\<rparr>
                    else st)
         in st1\<lparr>accumulatedContent := accumulatedContent st1 @ c\<rparr>)
      else st)"

text \<open>Lines 154-165: the delta counter and the throttled \<open>onUpdate\<close>.\<close>

definition count_and_notify :: "(nat \<Rightarrow> int) \<Rightarrow> int \<Rightarrow> stream_state \<Rightarrow> stream_state" where
  "count_and_notify clock startTime st =
     (let st1 = st\<lparr>streamTokenCount := streamTokenCount st + 1\<rparr>;
          currentTime = clock (ticks st1);
          st2 = st1\<lparr>ticks := ticks st1 + 1\<rparr>
      in if currentTime - lastUiUpdate st2 > 33 then
           (let d = real_of_int (currentTime - startTime) / 1000;
                t = per_second (streamTokenCount st2) d
            in st2\<lparr>emitted := emitted st2 @
                       [OnUpdate (accumulatedContent st2)
                          \<lparr>tokenCount = streamTokenCount st2, duration = d, tps = t\<rparr>],
                    lastUiUpdate := currentTime\<rparr>)
         else st2)"

text \<open>The body of the \<open>try\<close> block after a successful parse (lines 135-165).\<close>

definition apply_event :: "(nat \<Rightarrow> int) \<Rightarrow> int \<Rightarrow> stream_state \<Rightarrow> wire_message \<Rightarrow> stream_state" where
  "apply_event clock startTime st d =
     (let st1 = add_content (deltaContent d) (add_reasoning (deltaReasoning d) st)
      in if deltaContent d \<noteq> [] \<or> deltaReasoning d \<noteq> []
         then count_and_notify clock startTime st1
         else st1)"

subsection \<open>Byte framing\<close>

text \<open>
  \<open>String.prototype.trim\<close>. A string is a list of characters and a character is a code
  unit below 256: the white space and line terminators of JavaScript in that range are
  the space, the five control characters from tab to carriage return, and the no-break
  space U+00A0. The others (U+1680, U+2000 to U+200A, U+2028, U+2029, U+202F, U+205F,
  U+3000, U+FEFF) lie outside the character type.
\<close>

definition is_space :: "char \<Rightarrow> bool" where
  "is_space c =
     (c \<in> set [CHR '' '', CHR 0x09, CHR 0x0A, CHR 0x0B, CHR 0x0C, CHR 0x0D, CHR 0xA0])"

definition trim :: "string \<Rightarrow> string" where
  "trim s = rev (dropWhile is_space (rev (dropWhile is_space s)))"

text \<open>\<open>buffer.split('\n')\<close>: never empty; the last element is the unfinished line.\<close>

fun split_nl :: "string \<Rightarrow> string list" where
  "split_nl [] = [[]]"
| "split_nl (c # cs) =
     (if c = CHR 0x0A then [] # split_nl cs
      else (case split_nl cs of
              [] \<Rightarrow> [[c]]
            | l # ls \<Rightarrow> (c # l) # ls))"

text \<open>
  One iteration of \<open>for (const line of lines)\<close> (lines 126-168). \<open>parse\<close> stands for
  \<open>JSON.parse\<close> followed by the reads of \<open>data.choices[0]?.delta\<close>: it is \<open>None\<close>
  when either throws, which the \<open>catch\<close> of line 166 answers with a diagnostic only.
\<close>

definition process_line ::
  "(string \<Rightarrow> wire_message option) \<Rightarrow> (nat \<Rightarrow> int) \<Rightarrow> int \<Rightarrow> stream_state \<Rightarrow> string \<Rightarrow> stream_state" where
  "process_line parse clock startTime st line =
     (let trimmedLine = trim line in
      if \<not> prefix ''data: '' trimmedLine then st
      else (let dataStr = drop 6 trimmedLine in
            if dataStr = ''[DONE]'' then st
            else (case parse dataStr of
                    None \<Rightarrow> st
                  | Some d \<Rightarrow> apply_event clock startTime st d)))"

text \<open>
  The \<open>while (true)\<close> loop over the chunks that \<open>reader.read()\<close> delivers before it
  reports the end of the data or throws (lines 115-170); a chunk is the decoded text.
\<close>

fun read_loop ::
  "(string \<Rightarrow> wire_message option) \<Rightarrow> (nat \<Rightarrow> int) \<Rightarrow> int \<Rightarrow> string \<Rightarrow> stream_state \<Rightarrow> string list \<Rightarrow> stream_state" where
  "read_loop parse clock startTime buffer st [] = st"
| "read_loop parse clock startTime buffer st (chunk # rest) =
     (let lines = split_nl (buffer @ chunk)
      in read_loop parse clock startTime (last lines)
           (foldl (process_line parse clock startTime) st (butlast lines)) rest)"

subsection \<open>The transport and the whole run\<close>

datatype read_end = EndOfData | ReadThrows js_error

record body_reader =
  chunks :: "string list"
  ending :: read_end

text \<open>
  \<open>response.json()\<close> of the non-streaming branch: it throws, or yields a document of
  which the code reads \<open>choices?.[0]?.message\<close> and \<open>usage?.completion_tokens\<close>.
\<close>

record json_document =
  choice_message :: "wire_message option"
  completion_tokens :: "nat option"

datatype json_outcome = JsonThrows js_error | JsonData json_document

record response =
  ok :: bool
  status :: nat
  statusText :: string
  json :: json_outcome
  body :: "body_reader option"

datatype fetch_outcome = FetchThrows js_error | FetchResponse response

text \<open>Decimal digits of a number, for the template string of line 70.\<close>

fun show_nat :: "nat \<Rightarrow> string" where
  "show_nat n =
     (if n < 10 then [char_of (48 + n)]
      else show_nat (n div 10) @ [char_of (48 + n mod 10)])"

text \<open>Lines 82-98: the non-streaming merge and its statistics.\<close>

definition nonstream_content :: "wire_message \<Rightarrow> string" where
  "nonstream_content m =
     (let reasoningContent = js_or (w_reasoning_content m) (js_or (w_reasoning m) []);
          textContent = js_or (w_content m) []
      in if reasoningContent \<noteq> []
         then ''<think>'' @ reasoningContent @ ''</think>'' @ textContent
         else textContent)"

text \<open>
  \<open>data.usage?.completion_tokens || Math.ceil(content.length / 4)\<close>: the number 0 is
  falsy.
\<close>

definition nonstream_tokenCount :: "nat option \<Rightarrow> string \<Rightarrow> nat" where
  "nonstream_tokenCount usage c =
     (case usage of
        None \<Rightarrow> (length c + 3) div 4
      | Some n \<Rightarrow> if n = 0 then (length c + 3) div 4 else n)"

definition initial_stream_state :: stream_state where
  "initial_stream_state =
     \<lparr>accumulatedContent = [], lastUiUpdate = 0, streamTokenCount = 0,
      hasStartedReasoning = False, hasEndedReasoning = False, ticks = 1, emitted = []\<rparr>"

text \<open>Lines 172-180: the forced closing marker and the terminal \<open>onFinish\<close>.\<close>

definition final_content :: "stream_state \<Rightarrow> string" where
  "final_content st =
     (if hasStartedReasoning st \<and> \<not> hasEndedReasoning st
      then accumulatedContent st @ ''</think>''
      else accumulatedContent st)"

definition finish :: "(nat \<Rightarrow> int) \<Rightarrow> int \<Rightarrow> stream_state \<Rightarrow> notification" where
  "finish clock startTime st =
     (let finalDuration = real_of_int (clock (ticks st) - startTime) / 1000
      in OnFinish (final_content st)
           \<lparr>tokenCount = streamTokenCount st, duration = finalDuration,
            tps = per_second (streamTokenCount st) finalDuration\<rparr>)"

text \<open>
  \<open>streamCompletion\<close>: \<open>stream\<close> is the streaming flag and \<open>fetched\<close> is what the
  awaited \<open>fetch\<close> of the request (lines 31-67) does: it throws or yields a response.
  Every \<open>throw\<close> inside the \<open>try\<close> ends in the single \<open>catch\<close> of line 182, which
  calls \<open>onError\<close>.
\<close>

definition streamCompletion ::
  "(string \<Rightarrow> wire_message option) \<Rightarrow> (nat \<Rightarrow> int) \<Rightarrow> bool \<Rightarrow> fetch_outcome \<Rightarrow> notification list" where
  "streamCompletion parse clock stream fetched =
     (let startTime = clock 0 in
      case fetched of
        FetchThrows e \<Rightarrow> [OnError e]
      | FetchResponse r \<Rightarrow>
          if \<not> ok r then
            [OnError (new_Error (''API Error: '' @ show_nat (status r) @ '' '' @ statusText r))]
          else if \<not> stream then
            (case json r of
               JsonThrows e \<Rightarrow> [OnError e]
             | JsonData data \<Rightarrow>
                 (case choice_message data of
                    None \<Rightarrow> [OnError (new_Error ''Invalid response: no message in choices'')]
                  | Some m \<Rightarrow>
                      (let c = nonstream_content m;
                           n = nonstream_tokenCount (completion_tokens data) c;
                           d = real_of_int (clock 1 - startTime) / 1000
                       in [OnFinish c \<lparr>tokenCount = n, duration = d, tps = per_second n d\<rparr>])))
          else
            (case body r of
               None \<Rightarrow> [OnError (new_Error ''Response body is null'')]
             | Some reader \<Rightarrow>
                 (let st = read_loop parse clock startTime [] initial_stream_state (chunks reader)
                  in case ending reader of
                       ReadThrows e \<Rightarrow> emitted st @ [OnError e]
                     | EndOfData \<Rightarrow> emitted st @ [finish clock startTime st])))"


section \<open>The version tree and the generation controller (App.tsx)\<close>

subsection \<open>Turns, sessions and the application state\<close>

text \<open>
  Modelled from the spec: the declarations of \<open>Message\<close> and \<open>ChatSession\<close>
  (\<open>lib/db.ts\<close>) are not among the sources. The types below have the fields of the
  specification's data model (section 3) under the names that \<open>App.tsx\<close> and the hook
  \<open>useChatHistory\<close> read and write.
\<close>

datatype role = System | User | Assistant

record message_stats =
  totalTokens :: nat
  generationTime :: real
  tokensPerSecond :: real

text \<open>
  An entry of \<open>siblings\<close>: the code only ever writes and reads the fields \<open>role\<close>,
  \<open>content\<close> and \<open>stats\<close> of such an entry; \<open>role\<close> is optional because the object
  spread of an empty array slot (lines 194-198) yields an object without it.
\<close>

record sibling =
  sib_role :: "role option"
  sib_content :: string
  sib_stats :: "message_stats option"

text \<open>
  A turn. An array of siblings is a list of optional entries: \<open>None\<close> is a hole or
  \<open>undefined\<close>. \<open>siblingIndex\<close> is an array index, a natural number.
\<close>

record Message =
  role :: role
  content :: string
  images :: "string list option"
  stats :: "message_stats option"
  siblings :: "sibling option list option"
  siblingIndex :: "nat option"

datatype effort = Low | Medium | High

text \<open>The fields of a session carry the prefix \<open>s_\<close>.\<close>

record ChatSession =
  s_id :: string
  s_title :: string
  s_date :: int
  s_messages :: "Message list"
  s_systemPrompt :: string
  s_temperature :: real
  s_reasoningEffort :: "effort option"
  s_isFavorite :: "bool option"

datatype AbortController = AbortController (aborted: bool)

text \<open>
  The React state of \<open>App\<close> that the modelled handlers read and write, the ref holding
  the cancellation token, and the store \<open>db\<close>: the sequence of the conversations saved
  so far, oldest first. A handler reads the state of the latest render, and state updates
  apply in the order in which they are queued.
\<close>

record app_state =
  messages :: "Message list"
  currentChatId :: "string option"
  sessions :: "ChatSession list"
  isLoading :: bool
  abortControllerRef :: "AbortController option"
  systemPrompt :: string
  temperature :: real
  reasoningEffort :: "effort option"
  db :: "ChatSession list"

text \<open>
  Modelled from the spec: \<open>saveSession\<close> and \<open>getSession\<close> of \<open>lib/db.ts\<close> are not
  among the sources. After the persistence interface of the specification (section 6),
  \<open>save(conversation)\<close> stores the conversation and \<open>load(id)\<close> yields the
  conversation stored last under that id, or nothing.
\<close>

definition saveSession :: "ChatSession \<Rightarrow> app_state \<Rightarrow> app_state" where
  "saveSession session st = st\<lparr>db := db st @ [session]\<rparr>"

definition getSession :: "string \<Rightarrow> app_state \<Rightarrow> ChatSession option" where
  "getSession i st = List.find (\<lambda>s. s_id s = i) (rev (db st))"

text \<open>\<open>addSession\<close> and \<open>updateSession\<close> of the hook \<open>useChatHistory\<close>.\<close>

definition addSession :: "ChatSession \<Rightarrow> app_state \<Rightarrow> app_state" where
  "addSession session st =
     (let st1 = saveSession session st
      in st1\<lparr>sessions := session # sessions st1\<rparr>)"

definition updateSession :: "ChatSession \<Rightarrow> app_state \<Rightarrow> app_state" where
  "updateSession session st =
     saveSession session
       (st\<lparr>sessions := map (\<lambda>s. if s_id s = s_id session then session else s) (sessions st)\<rparr>)"

text \<open>Truthiness of an optional string: \<open>null\<close> and the empty string are falsy.\<close>

definition truthy :: "string option \<Rightarrow> bool" where
  "truthy x = (case x of None \<Rightarrow> False | Some s \<Rightarrow> s \<noteq> [])"

subsection \<open>JavaScript arrays\<close>

text \<open>Reading an index outside the array yields \<open>undefined\<close>.\<close>

definition js_get :: "'a option list \<Rightarrow> nat \<Rightarrow> 'a option" where
  "js_get xs i = (if i < length xs then xs ! i else None)"

text \<open>A version index arriving from the user interface is a number, possibly negative.\<close>

definition js_get_int :: "'a option list \<Rightarrow> int \<Rightarrow> 'a option" where
  "js_get_int xs i = (if 0 \<le> i then js_get xs (nat i) else None)"

text \<open>Writing at an index beyond the end extends the array, leaving holes.\<close>

definition js_set :: "'a option list \<Rightarrow> nat \<Rightarrow> 'a \<Rightarrow> 'a option list" where
  "js_set xs i v =
     (if i < length xs then xs[i := Some v]
      else xs @ replicate (i - length xs) None @ [Some v])"

subsection \<open>processGeneration and its callbacks\<close>

definition empty_assistant :: Message where
  "empty_assistant =
     \<lparr>role = Assistant, content = [], images = None, stats = None,
      siblings = None, siblingIndex = None\<rparr>"

text \<open>
  Lines 152-161, the part of \<open>processGeneration\<close> before the awaited
  \<open>streamCompletion\<close>. The updater of line 157 assigns the closure variable
  \<open>targetIndex\<close>; the result carries its value as the callbacks see it.
\<close>

definition processGeneration_begin :: "nat option \<Rightarrow> app_state \<Rightarrow> app_state \<times> nat option" where
  "processGeneration_begin targetIndex st =
     (let st1 = st\<lparr>isLoading := True, abortControllerRef := Some (AbortController False)\<rparr>
      in case targetIndex of
           None \<Rightarrow> (st1\<lparr>messages := messages st1 @ [empty_assistant]\<rparr>, Some (length (messages st1)))
         | Some i \<Rightarrow> (st1, Some i))"

definition actualIndex :: "nat option \<Rightarrow> Message list \<Rightarrow> int" where
  "actualIndex targetIndex prev =
     (case targetIndex of Some i \<Rightarrow> int i | None \<Rightarrow> int (length prev) - 1)"

text \<open>
  Lines 185-199 and, word for word, lines 211-224: the write of a notification's content
  and statistics into the target turn and into its active sibling.
\<close>

definition overwrite_turn :: "string \<Rightarrow> engine_stats \<Rightarrow> Message \<Rightarrow> Message" where
  "overwrite_turn c es msg =
     (let msg1 = msg\<lparr>content := c,
                     stats := Some \<lparr>totalTokens = tokenCount es, generationTime = duration es,
                                    tokensPerSecond = tps es\<rparr>\<rparr>
      in case siblings msg1 of
           None \<Rightarrow> msg1
         | Some sibs \<Rightarrow>
             (case siblingIndex msg1 of
                None \<Rightarrow> msg1
              | Some k \<Rightarrow>
                  (let spread = (case js_get sibs k of
                                   None \<Rightarrow> \<lparr>sib_role = None, sib_content = c, sib_stats = stats msg1\<rparr>
                                 | Some old \<Rightarrow> old\<lparr>sib_content := c, sib_stats := stats msg1\<rparr>)
                   in msg1\<lparr>siblings := Some (js_set sibs k spread)\<rparr>)))"

text \<open>The updater passed to \<open>setMessages\<close> by \<open>onUpdate\<close> and by \<open>onFinish\<close>.\<close>

definition write_target :: "nat option \<Rightarrow> string \<Rightarrow> engine_stats \<Rightarrow> Message list \<Rightarrow> Message list" where
  "write_target targetIndex c es prev =
     (let i = actualIndex targetIndex prev
      in if 0 \<le> i \<and> i < int (length prev)
         then prev[nat i := overwrite_turn c es (prev ! nat i)]
         else prev)"

definition onUpdate :: "nat option \<Rightarrow> string \<Rightarrow> engine_stats \<Rightarrow> app_state \<Rightarrow> app_state" where
  "onUpdate targetIndex c es st = st\<lparr>messages := write_target targetIndex c es (messages st)\<rparr>"

text \<open>
  Lines 204-241. The variable \<open>finalMessages\<close> starts as the empty array and is assigned
  inside the updater of line 206, which React runs at once or with the next render;
  \<open>rendered\<close> says whether the updater has run when the promise of \<open>getSession\<close>
  resolves. If it has not, the conversation is saved with no turns.
\<close>

definition onFinish ::
  "bool \<Rightarrow> nat option \<Rightarrow> string \<Rightarrow> string \<Rightarrow> engine_stats \<Rightarrow> app_state \<Rightarrow> app_state" where
  "onFinish rendered targetIndex sessionId c es st =
     (let next = write_target targetIndex c es (messages st);
          finalMessages = (if rendered then next else []);
          st1 = st\<lparr>messages := next, isLoading := False, abortControllerRef := None\<rparr>
      in if sessionId \<noteq> [] then
           (case getSession sessionId st1 of
              None \<Rightarrow> st1
            | Some freshSession \<Rightarrow> updateSession (freshSession\<lparr>s_messages := finalMessages\<rparr>) st1)
         else st1)"

definition onError :: "nat option \<Rightarrow> js_error \<Rightarrow> app_state \<Rightarrow> app_state" where
  "onError targetIndex error st =
     (if name error = ''AbortError'' then st
      else
        (let errorMsg = empty_assistant\<lparr>content := ''**Error**: '' @ message error\<rparr>;
             prev = messages st;
             next = (case targetIndex of
                       None \<Rightarrow> prev @ [errorMsg]
                     | Some i \<Rightarrow> if i < length prev then prev[i := errorMsg] else prev @ [errorMsg])
         in st\<lparr>messages := next, isLoading := False, abortControllerRef := None\<rparr>))"

definition deliver ::
  "bool \<Rightarrow> nat option \<Rightarrow> string \<Rightarrow> app_state \<Rightarrow> notification \<Rightarrow> app_state" where
  "deliver rendered targetIndex sessionId st n =
     (case n of
        OnUpdate c es \<Rightarrow> onUpdate targetIndex c es st
      | OnFinish c es \<Rightarrow> onFinish rendered targetIndex sessionId c es st
      | OnError e \<Rightarrow> onError targetIndex e st)"

text \<open>
  \<open>processGeneration\<close>: the synchronous beginning, then the callbacks in the order in
  which \<open>streamCompletion\<close> invokes them. The argument \<open>messagesToUse\<close> only enters the
  request, whose outcome is \<open>fetched\<close>; \<open>rendered\<close> is passed on to \<open>onFinish\<close>.
\<close>

definition processGeneration ::
  "(string \<Rightarrow> wire_message option) \<Rightarrow> (nat \<Rightarrow> int) \<Rightarrow> bool \<Rightarrow> fetch_outcome \<Rightarrow> bool \<Rightarrow>
   string \<Rightarrow> nat option \<Rightarrow> app_state \<Rightarrow> app_state" where
  "processGeneration parse clock stream fetched rendered sessionId targetIndex st =
     (case processGeneration_begin targetIndex st of
        (st1, ti) \<Rightarrow>
          foldl (deliver rendered ti sessionId) st1 (streamCompletion parse clock stream fetched))"

subsection \<open>The handlers\<close>

text \<open>
  A handler that calls \<open>processGeneration\<close> runs its synchronous beginning at once and
  leaves the streaming pending: the result names the arguments of the pending call.
\<close>

record pending_generation =
  messagesToUse :: "Message list"
  sessionId :: string
  targetIndex :: "nat option"

definition start_generation ::
  "Message list \<Rightarrow> string \<Rightarrow> nat option \<Rightarrow> app_state \<Rightarrow> app_state \<times> pending_generation option" where
  "start_generation context sid ti st =
     (case processGeneration_begin ti st of
        (st1, ti1) \<Rightarrow> (st1, Some \<lparr>messagesToUse = context, sessionId = sid, targetIndex = ti1\<rparr>))"

text \<open>
  Lines 143-149. The \<open>abort()\<close> makes the pending \<open>fetch\<close> or \<open>read\<close> of the running
  \<open>streamCompletion\<close> throw an error named \<open>AbortError\<close>.
\<close>

definition handleStop :: "app_state \<Rightarrow> app_state" where
  "handleStop st =
     (case abortControllerRef st of
        None \<Rightarrow> st
      | Some c \<Rightarrow> st\<lparr>abortControllerRef := None, isLoading := False\<rparr>)"

text \<open>
  Lines 270-300. \<open>now\<close> is the value of \<open>Date.now()\<close> and \<open>today\<close> that of
  \<open>new Date()\<close>.
\<close>

definition handleSendMessage ::
  "nat \<Rightarrow> int \<Rightarrow> string \<Rightarrow> string list option \<Rightarrow> app_state \<Rightarrow> app_state \<times> pending_generation option" where
  "handleSendMessage now today c imgs st =
     (let userMsg = \<lparr>role = User, content = c, images = imgs, stats = None,
                     siblings = None, siblingIndex = None\<rparr>;
          newMessages = messages st @ [userMsg];
          st1 = st\<lparr>messages := newMessages\<rparr>
      in if \<not> truthy (currentChatId st1) then
           (let activeSessionId = show_nat now;
                newSession =
                  \<lparr>s_id = activeSessionId,
                   s_title = take 30 (trim c) @ (if length c > 30 then ''...'' else []),
                   s_date = today, s_messages = newMessages,
                   s_systemPrompt = systemPrompt st1, s_temperature = temperature st1,
                   s_reasoningEffort = reasoningEffort st1, s_isFavorite = None\<rparr>;
                st2 = (addSession newSession st1)\<lparr>currentChatId := Some activeSessionId\<rparr>
            in start_generation newMessages activeSessionId None st2)
         else
           (let activeSessionId = the (currentChatId st1);
                st2 = (case List.find (\<lambda>s. s_id s = activeSessionId) (sessions st1) of
                         None \<Rightarrow> st1
                       | Some s \<Rightarrow>
                           updateSession
                             (s\<lparr>s_messages := newMessages, s_systemPrompt := systemPrompt st1,
                                s_temperature := temperature st1,
                                s_reasoningEffort := reasoningEffort st1\<rparr>) st1)
            in start_generation newMessages activeSessionId None st2))"

text \<open>Lines 302-345.\<close>

definition handleRegenerate :: "app_state \<Rightarrow> app_state \<times> pending_generation option" where
  "handleRegenerate st =
     (if isLoading st \<or> messages st = [] then (st, None)
      else
        (let lastMsgIndex = length (messages st) - 1;
             lastMsg = messages st ! lastMsgIndex
         in if role lastMsg = Assistant then
              (let updated1 =
                     (case siblings lastMsg of
                        None \<Rightarrow>
                          lastMsg\<lparr>siblings := Some [Some \<lparr>sib_role = Some (role lastMsg),
                                                            sib_content = content lastMsg,
                                                            sib_stats = stats lastMsg\<rparr>],
                                  siblingIndex := Some 0\<rparr>
                      | Some sibs \<Rightarrow> lastMsg);
                   newSibling = \<lparr>sib_role = Some Assistant, sib_content = [], sib_stats = None\<rparr>;
                   newSiblings = (case siblings updated1 of None \<Rightarrow> [] | Some sibs \<Rightarrow> sibs)
                                   @ [Some newSibling];
                   updatedMsg = updated1\<lparr>siblings := Some newSiblings,
                                          siblingIndex := Some (length newSiblings - 1),
                                          content := [], stats := None\<rparr>;
                   newMessages = (messages st)[lastMsgIndex := updatedMsg];
                   st1 = st\<lparr>messages := newMessages\<rparr>;
                   context = butlast (messages st)
               in if truthy (currentChatId st)
                  then start_generation context (the (currentChatId st)) (Some lastMsgIndex) st1
                  else (st1, None))
            else if role lastMsg = User then
              (if truthy (currentChatId st)
               then start_generation (messages st) (the (currentChatId st)) None st
               else (st, None))
            else (st, None)))"

text \<open>
  Lines 347-371. \<open>messages[index]\<close> is \<open>undefined\<close> when there is no such turn, and
  reading \<open>siblings\<close> of it throws a \<open>TypeError\<close>.
\<close>

definition handleVersionChange :: "nat \<Rightarrow> int \<Rightarrow> app_state \<Rightarrow> js_error + app_state" where
  "handleVersionChange index newVersionIndex st =
     (if \<not> index < length (messages st)
      then Inl \<lparr>name = ''TypeError'', message = ''Cannot read properties of undefined''\<rparr>
      else
        (let msg = messages st ! index
         in case siblings msg of
              None \<Rightarrow> Inr st
            | Some sibs \<Rightarrow>
                (case js_get_int sibs newVersionIndex of
                   None \<Rightarrow> Inr st
                 | Some targetVersion \<Rightarrow>
                     (let updatedMsg = msg\<lparr>content := sib_content targetVersion,
                                            stats := sib_stats targetVersion,
                                            siblingIndex := Some (nat newVersionIndex)\<rparr>;
                          newMessages = (messages st)[index := updatedMsg];
                          st1 = st\<lparr>messages := newMessages\<rparr>
                      in if truthy (currentChatId st1) then
                           (case List.find (\<lambda>ss. Some (s_id ss) = currentChatId st1) (sessions st1) of
                              None \<Rightarrow> Inr st1
                            | Some s \<Rightarrow> Inr (updateSession (s\<lparr>s_messages := newMessages\<rparr>) st1))
                         else Inr st1))))"


section \<open>Notions used in the statements\<close>

text \<open>The number of positions of a text at which a pattern occurs.\<close>

fun occurrences :: "string \<Rightarrow> string \<Rightarrow> nat" where
  "occurrences p [] = (if p = [] then 1 else 0)"
| "occurrences p (x # xs) = (if prefix p (x # xs) then 1 else 0) + occurrences p xs"

text \<open>
  The event that a line hands to the merge, if any: the tests of \<open>process_line\<close>
  without the merge.
\<close>

definition line_event :: "(string \<Rightarrow> wire_message option) \<Rightarrow> string \<Rightarrow> wire_message option" where
  "line_event parse line =
     (let trimmedLine = trim line in
      if \<not> prefix ''data: '' trimmedLine then None
      else (let dataStr = drop 6 trimmedLine in
            if dataStr = ''[DONE]'' then None else parse dataStr))"

text \<open>The lines that the reads hand to the \<open>for\<close> loop, over all chunks, in order.\<close>

fun framed_lines :: "string \<Rightarrow> string list \<Rightarrow> string list" where
  "framed_lines buffer [] = []"
| "framed_lines buffer (chunk # rest) =
     (let lines = split_nl (buffer @ chunk)
      in butlast lines @ framed_lines (last lines) rest)"

definition stream_events :: "(string \<Rightarrow> wire_message option) \<Rightarrow> string list \<Rightarrow> wire_message list" where
  "stream_events parse cs = List.map_filter (line_event parse) (framed_lines [] cs)"

text \<open>The delta texts of a sequence of events, reasoning before answer within an event.\<close>

definition plain_text :: "wire_message list \<Rightarrow> string" where
  "plain_text ds = concat (map (\<lambda>d. deltaReasoning d @ deltaContent d) ds)"

text \<open>
  The invariant of the merge: \<open>p\<close> is the delta text seen so far, and the accumulated
  content is \<open>p\<close> with the markers that the flags account for.
\<close>

definition merged :: "stream_state \<Rightarrow> string \<Rightarrow> bool" where
  "merged st p \<longleftrightarrow>
     (if \<not> hasStartedReasoning st then \<not> hasEndedReasoning st \<and> accumulatedContent st = p
      else if \<not> hasEndedReasoning st
        then (\<exists>a b. p = a @ b \<and> accumulatedContent st = a @ ''<think>'' @ b)
        else (\<exists>a b c. p = a @ b @ c \<and>
                accumulatedContent st = a @ ''<think>'' @ b @ ''</think>'' @ c))"

text \<open>The contents that a run delivers through \<open>onUpdate\<close> and \<open>onFinish\<close>, in order.\<close>

fun delivered :: "notification list \<Rightarrow> string list" where
  "delivered [] = []"
| "delivered (OnUpdate c es # ns) = c # delivered ns"
| "delivered (OnFinish c es # ns) = c # delivered ns"
| "delivered (OnError e # ns) = delivered ns"

fun is_update :: "notification \<Rightarrow> bool" where
  "is_update (OnUpdate c es) = True"
| "is_update n = False"

fun is_terminal :: "notification \<Rightarrow> bool" where
  "is_terminal (OnUpdate c es) = False"
| "is_terminal n = True"

text \<open>The invariant of the throttle: what was delivered grows up to the accumulated content.\<close>

definition growing :: "stream_state \<Rightarrow> bool" where
  "growing st \<longleftrightarrow>
     list_all is_update (emitted st) \<and>
     sorted_wrt prefix (delivered (emitted st)) \<and>
     list_all (\<lambda>c. prefix c (accumulatedContent st)) (delivered (emitted st))"

text \<open>
  The invariant of section 3 of the specification on a turn: the active sibling, when
  there is one, carries the turn's content and statistics.
\<close>

definition sibling_synced :: "Message \<Rightarrow> bool" where
  "sibling_synced m =
     (case siblings m of
        None \<Rightarrow> True
      | Some sibs \<Rightarrow>
          (case siblingIndex m of
             None \<Rightarrow> True
           | Some k \<Rightarrow>
               (case js_get sibs k of
                  None \<Rightarrow> False
                | Some v \<Rightarrow> sib_content v = content m \<and> sib_stats v = stats m)))"

text \<open>
  The states from the beginning of a generation up to the first terminal notification or
  stop: what lies in between are partial notifications, attempts to regenerate, version
  changes and sends.
\<close>

inductive generating :: "app_state \<Rightarrow> bool" where
  begun: "generating (fst (processGeneration_begin ti st))"
| partial: "generating st \<Longrightarrow> generating (onUpdate ti c es st)"
| regenerate: "generating st \<Longrightarrow> generating (fst (handleRegenerate st))"
| version: "generating st \<Longrightarrow> handleVersionChange i v st = Inr st' \<Longrightarrow> generating st'"
| send: "generating st \<Longrightarrow> generating (fst (handleSendMessage now today c imgs st))"

section \<open>Example inputs\<close>

definition reasoning_delta :: "string \<Rightarrow> wire_message" where
  "reasoning_delta r = \<lparr>w_content = None, w_reasoning_content = Some r, w_reasoning = None\<rparr>"

definition content_delta :: "string \<Rightarrow> wire_message" where
  "content_delta c = \<lparr>w_content = Some c, w_reasoning_content = None, w_reasoning = None\<rparr>"

text \<open>A parser that knows three event payloads and rejects every other text.\<close>

definition example_parse :: "string \<Rightarrow> wire_message option" where
  \<open>example_parse s =
     (if s = ''{"choices":[{"delta":{"reasoning_content":"a"}}]}'' then Some (reasoning_delta ''a'')
      else if s = ''{"choices":[{"delta":{"content":"</think>"}}]}'' then Some (content_delta ''</think>'')
      else if s = ''{"choices":[{"delta":{"content":"42"}}]}'' then Some (content_delta ''42'')
      else None)\<close>

text \<open>A clock that advances by 100 ms from one reading to the next.\<close>

definition example_clock :: "nat \<Rightarrow> int" where
  "example_clock n = 100 * int n"

definition streaming_response :: "string list \<Rightarrow> read_end \<Rightarrow> response" where
  "streaming_response cs e =
     \<lparr>ok = True, status = 200, statusText = ''OK'', json = JsonThrows (new_Error []),
      body = Some \<lparr>chunks = cs, ending = e\<rparr>\<rparr>"

definition json_response :: "json_document \<Rightarrow> response" where
  "json_response d =
     \<lparr>ok = True, status = 200, statusText = ''OK'', json = JsonData d, body = None\<rparr>"

text \<open>A reasoning delta, then an answer delta whose text is the closing marker.\<close>

definition marker_in_answer :: "string list" where
  \<open>marker_in_answer =
     [''data: {"choices":[{"delta":{"reasoning_content":"a"}}]}\<newline>'',
      ''data: {"choices":[{"delta":{"content":"</think>"}}]}\<newline>'']\<close>

text \<open>
  A reasoning delta, an answer delta cut by the chunk boundary, and the sentinel.
\<close>

definition reasoning_then_answer :: "string list" where
  \<open>reasoning_then_answer =
     [''data: {"choices":[{"delta":{"reasoning_content":"a"}}]}\<newline>data: {"choi'',
      ''ces":[{"delta":{"content":"42"}}]}\<newline>data: [DONE]\<newline>'']\<close>

text \<open>The same stream with a line in between that is not a JSON document.\<close>

definition with_malformed_line :: "string list" where
  \<open>with_malformed_line =
     [''data: {"choices":[{"delta":{"reasoning_content":"a"}}]}\<newline>data: {"choi\<newline>data: {"choi'',
      ''ces":[{"delta":{"content":"42"}}]}\<newline>data: [DONE]\<newline>'']\<close>

definition abort_error :: js_error where
  "abort_error = \<lparr>name = ''AbortError'', message = ''The user aborted a request.''\<rparr>"

definition user_turn :: "string \<Rightarrow> Message" where
  "user_turn c = \<lparr>role = User, content = c, images = None, stats = None,
                   siblings = None, siblingIndex = None\<rparr>"

definition assistant_turn :: "string \<Rightarrow> Message" where
  "assistant_turn c = empty_assistant\<lparr>content := c\<rparr>"

definition example_state :: "Message list \<Rightarrow> bool \<Rightarrow> app_state" where
  "example_state ms loading =
     \<lparr>messages = ms, currentChatId = Some ''chat1'', sessions = [], isLoading = loading,
      abortControllerRef = (if loading then Some (AbortController False) else None),
      systemPrompt = [], temperature = 0.7, reasoningEffort = None, db = []\<rparr>"


definition network_error :: js_error where
  "network_error = \<lparr>name = ''TypeError'', message = ''Failed to fetch''\<rparr>"

text \<open>A stream that delivers one reasoning delta before its next read fails.\<close>

definition one_delta :: "string list" where
  \<open>one_delta = [''data: {"choices":[{"delta":{"reasoning_content":"a"}}]}\<newline>'']\<close>

text \<open>A conversation of a question and an answer that has been regenerated once.\<close>

definition regenerated_turn :: Message where
  "regenerated_turn =
     \<lparr>role = Assistant, content = ''second'', images = None, stats = None,
      siblings = Some [Some \<lparr>sib_role = Some Assistant, sib_content = ''first'', sib_stats = None\<rparr>,
                       Some \<lparr>sib_role = Some Assistant, sib_content = ''second'', sib_stats = None\<rparr>],
      siblingIndex = Some 1\<rparr>"

section \<open>Properties of the stream ingestion engine\<close>

subsection \<open>The run as a fold over the events\<close>



lemma process_line_event:
  "process_line parse clock s st line =
     (case line_event parse line of None \<Rightarrow> st | Some d \<Rightarrow> apply_event clock s st d)"
  by (simp add: process_line_def line_event_def Let_def)

lemma foldl_process_line:
  "foldl (process_line parse clock s) st ls =
     foldl (apply_event clock s) st (List.map_filter (line_event parse) ls)"
proof (induction ls arbitrary: st)
  case Nil
  show ?case by (simp add: map_filter_simps)
next
  case (Cons l ls)
  have "foldl (process_line parse clock s) st (l # ls) =
          foldl (apply_event clock s) (process_line parse clock s st l)
            (List.map_filter (line_event parse) ls)"
    by (simp only: foldl_Cons Cons.IH)
  also have "\<dots> = foldl (apply_event clock s) st (List.map_filter (line_event parse) (l # ls))"
    by (cases "line_event parse l") (simp_all add: map_filter_simps process_line_event)
  finally show ?case .
qed

lemma read_loop_framed:
  "read_loop parse clock s buffer st cs =
     foldl (process_line parse clock s) st (framed_lines buffer cs)"
proof (induction cs arbitrary: buffer st)
  case Nil
  show ?case by simp
next
  case (Cons c cs)
  show ?case by (simp add: Let_def Cons.IH)
qed

lemma read_loop_events:
  "read_loop parse clock s [] st cs = foldl (apply_event clock s) st (stream_events parse cs)"
  by (simp add: read_loop_framed foldl_process_line stream_events_def)

lemma merged_add_reasoning:
  assumes "merged st p"
  shows "merged (add_reasoning r st) (p @ r)"
proof (cases "r = []")
  case True
  with assms show ?thesis by (simp add: add_reasoning_def)
next
  case r: False
  show ?thesis
  proof (cases "hasStartedReasoning st")
    case False
    with assms have "accumulatedContent st = p" "\<not> hasEndedReasoning st"
      by (simp_all add: merged_def)
    then have "\<exists>a b. p @ r = a @ b \<and> accumulatedContent (add_reasoning r st) = a @ ''<think>'' @ b"
      using r False by (intro exI[of _ p] exI[of _ r]) (simp add: add_reasoning_def)
    then show ?thesis using r False \<open>\<not> hasEndedReasoning st\<close>
      by (simp add: merged_def add_reasoning_def)
  next
    case started: True
    show ?thesis
    proof (cases "hasEndedReasoning st")
      case False
      with assms started obtain a b where "p = a @ b" "accumulatedContent st = a @ ''<think>'' @ b"
        by (auto simp: merged_def)
      then have "\<exists>a' b'. p @ r = a' @ b' \<and> accumulatedContent (add_reasoning r st) = a' @ ''<think>'' @ b'"
        using r started by (intro exI[of _ a] exI[of _ "b @ r"]) (simp add: add_reasoning_def)
      then show ?thesis using r started False by (simp add: merged_def add_reasoning_def)
    next
      case True
      with assms started obtain a b c where "p = a @ b @ c"
        "accumulatedContent st = a @ ''<think>'' @ b @ ''</think>'' @ c"
        by (auto simp: merged_def)
      then have "\<exists>a' b' c'. p @ r = a' @ b' @ c' \<and>
          accumulatedContent (add_reasoning r st) = a' @ ''<think>'' @ b' @ ''</think>'' @ c'"
        using r started by (intro exI[of _ a] exI[of _ b] exI[of _ "c @ r"]) (simp add: add_reasoning_def)
      then show ?thesis using r started True by (simp add: merged_def add_reasoning_def)
    qed
  qed
qed

lemma merged_add_content:
  assumes "merged st p"
  shows "merged (add_content c st) (p @ c)"
proof (cases "c = []")
  case True
  with assms show ?thesis by (simp add: add_content_def)
next
  case c: False
  show ?thesis
  proof (cases "hasStartedReasoning st")
    case False
    with assms c show ?thesis by (simp add: merged_def add_content_def)
  next
    case started: True
    show ?thesis
    proof (cases "hasEndedReasoning st")
      case False
      with assms started obtain a b where "p = a @ b" "accumulatedContent st = a @ ''<think>'' @ b"
        by (auto simp: merged_def)
      then have "\<exists>a' b' c'. p @ c = a' @ b' @ c' \<and>
          accumulatedContent (add_content c st) = a' @ ''<think>'' @ b' @ ''</think>'' @ c'"
        using c started False by (intro exI[of _ a] exI[of _ b] exI[of _ c]) (simp add: add_content_def)
      then show ?thesis using c started False by (simp add: merged_def add_content_def)
    next
      case True
      with assms started obtain a b c' where "p = a @ b @ c'"
        "accumulatedContent st = a @ ''<think>'' @ b @ ''</think>'' @ c'"
        by (auto simp: merged_def)
      then have "\<exists>a' b' c''. p @ c = a' @ b' @ c'' \<and>
          accumulatedContent (add_content c st) = a' @ ''<think>'' @ b' @ ''</think>'' @ c''"
        using c started True by (intro exI[of _ a] exI[of _ b] exI[of _ "c' @ c"]) (simp add: add_content_def)
      then show ?thesis using c started True by (simp add: merged_def add_content_def)
    qed
  qed
qed

lemma count_and_notify_fields:
  "accumulatedContent (count_and_notify clock s st) = accumulatedContent st"
  "hasStartedReasoning (count_and_notify clock s st) = hasStartedReasoning st"
  "hasEndedReasoning (count_and_notify clock s st) = hasEndedReasoning st"
  by (simp_all add: count_and_notify_def Let_def)

lemma merged_count_and_notify:
  "merged (count_and_notify clock s st) p = merged st p"
  by (simp add: merged_def count_and_notify_fields)

lemma merged_apply_event:
  assumes "merged st p"
  shows "merged (apply_event clock s st d) (p @ deltaReasoning d @ deltaContent d)"
proof -
  have "merged (add_content (deltaContent d) (add_reasoning (deltaReasoning d) st))
          ((p @ deltaReasoning d) @ deltaContent d)"
    by (intro merged_add_content merged_add_reasoning assms)
  then show ?thesis
    by (cases "deltaContent d = [] \<and> deltaReasoning d = []")
       (auto simp: apply_event_def Let_def merged_count_and_notify)
qed

lemma started_add_reasoning:
  "hasStartedReasoning (add_reasoning r st) = (hasStartedReasoning st \<or> r \<noteq> [])"
  by (simp add: add_reasoning_def Let_def)

lemma started_add_content:
  "hasStartedReasoning (add_content c st) = hasStartedReasoning st"
  by (simp add: add_content_def Let_def)

lemma started_apply_event:
  "hasStartedReasoning (apply_event clock s st d) = (hasStartedReasoning st \<or> deltaReasoning d \<noteq> [])"
  by (simp add: apply_event_def Let_def started_add_reasoning started_add_content
      count_and_notify_fields)

lemma merged_foldl:
  "merged st p \<Longrightarrow> merged (foldl (apply_event clock s) st ds) (p @ plain_text ds)"
proof (induction ds arbitrary: st p)
  case Nil
  then show ?case by (simp add: plain_text_def)
next
  case (Cons d ds)
  from Cons.IH [OF merged_apply_event [OF Cons.prems, of clock s d]]
  show ?case by (simp add: plain_text_def)
qed

lemma started_foldl:
  "hasStartedReasoning (foldl (apply_event clock s) st ds) =
     (hasStartedReasoning st \<or> (\<exists>d \<in> set ds. deltaReasoning d \<noteq> []))"
  by (induction ds arbitrary: st) (auto simp: started_apply_event)

lemma merged_initial: "merged initial_stream_state []"
  by (simp add: merged_def initial_stream_state_def)

lemma final_content_decomposed:
  assumes "merged st p" and "hasStartedReasoning st"
  shows "\<exists>a b c. p = a @ b @ c \<and> final_content st = a @ ''<think>'' @ b @ ''</think>'' @ c"
proof (cases "hasEndedReasoning st")
  case True
  with assms show ?thesis by (simp add: merged_def final_content_def)
next
  case False
  with assms obtain a b where "p = a @ b" "accumulatedContent st = a @ ''<think>'' @ b"
    by (auto simp: merged_def)
  then show ?thesis using assms(2) False
    by (intro exI[of _ a] exI[of _ b] exI[of _ "[]"]) (simp add: final_content_def)
qed


subsection \<open>Counting occurrences of the markers\<close>

lemma occurrences_skip:
  "m \<notin> set xs \<Longrightarrow> occurrences (m # q) (xs @ ys) = occurrences (m # q) ys"
  by (induction xs) auto

lemma occurrences_append_right:
  assumes "p \<noteq> []"
    and "\<And>s. suffix s xs \<Longrightarrow> s \<noteq> [] \<Longrightarrow> prefix p (s @ ys) \<Longrightarrow> prefix p s"
  shows "occurrences p (xs @ ys) = occurrences p xs + occurrences p ys"
  using assms
proof (induction xs)
  case Nil
  then show ?case by simp
next
  case (Cons x xs)
  have "occurrences p (xs @ ys) = occurrences p xs + occurrences p ys"
    by (rule Cons.IH [OF Cons.prems(1)]) (auto intro: Cons.prems(2) suffix_ConsI)
  moreover have "prefix p (x # xs @ ys) \<longleftrightarrow> prefix p (x # xs)"
    using Cons.prems(2) [of "x # xs"] prefix_prefix [of p "x # xs" ys] by auto
  ultimately show ?case by simp
qed

lemma marker_no_straddle:
  assumes "m \<notin> set q" and "s \<noteq> []" and "prefix (m # q) (s @ m # ys)"
  shows "prefix (m # q) s"
proof -
  from assms(3) consider "prefix (m # q) s" | us where "m # q = s @ us" "prefix us (m # ys)"
    by (auto simp: prefix_append)
  then show ?thesis
  proof cases
    case 1
    then show ?thesis .
  next
    case 2
    show ?thesis
    proof (cases us)
      case Nil
      with 2 show ?thesis by simp
    next
      case (Cons u us')
      with 2 have "u = m" by simp
      from assms(2) obtain h t where "s = h # t" by (cases s) auto
      with 2 Cons \<open>u = m\<close> have "q = t @ m # us'" by simp
      with assms(1) show ?thesis by simp
    qed
  qed
qed

lemma occurrences_before_marker:
  assumes "m \<notin> set q"
  shows "occurrences (m # q) (xs @ m # ys) = occurrences (m # q) xs + occurrences (m # q) (m # ys)"
  by (rule occurrences_append_right) (auto intro: marker_no_straddle [OF assms])

lemma occurrences_le_left:
  "p \<noteq> [] \<Longrightarrow> occurrences p xs \<le> occurrences p (xs @ ys)"
proof (induction xs)
  case Nil
  then show ?case by simp
next
  case (Cons x xs)
  then show ?case using prefix_prefix [of p "x # xs" ys] by auto
qed

lemma occurrences_le_right:
  "occurrences p ys \<le> occurrences p (xs @ ys)"
  by (induction xs) auto

lemma open_count:
  "occurrences ''<think>'' (a @ ''<think>'' @ b @ ''</think>'' @ c) =
     1 + occurrences ''<think>'' a + occurrences ''<think>'' b + occurrences ''<think>'' c"
proof -
  have 1: "occurrences ''<think>'' (a @ ''<think>'' @ b @ ''</think>'' @ c) =
      occurrences ''<think>'' a + occurrences ''<think>'' (''<think>'' @ b @ ''</think>'' @ c)"
    using occurrences_before_marker [of "CHR ''<''" "''think>''" a "''think>'' @ b @ ''</think>'' @ c"]
    by simp
  have 2: "occurrences ''<think>'' (''<think>'' @ b @ ''</think>'' @ c) =
      1 + occurrences ''<think>'' (b @ ''</think>'' @ c)"
    using occurrences_skip [of "CHR ''<''" "''think>''" "''think>''" "b @ ''</think>'' @ c"]
    by simp
  have 3: "occurrences ''<think>'' (b @ ''</think>'' @ c) =
      occurrences ''<think>'' b + occurrences ''<think>'' (''</think>'' @ c)"
    using occurrences_before_marker [of "CHR ''<''" "''think>''" b "''/think>'' @ c"]
    by simp
  have 4: "occurrences ''<think>'' (''</think>'' @ c) = occurrences ''<think>'' c"
    using occurrences_skip [of "CHR ''<''" "''/think>''" "''think>''" c]
    by simp
  show ?thesis unfolding 1 2 3 4 by simp
qed

lemma close_count:
  "occurrences ''</think>'' (a @ ''<think>'' @ b @ ''</think>'' @ c) =
     1 + occurrences ''</think>'' a + occurrences ''</think>'' b + occurrences ''</think>'' c"
proof -
  have 1: "occurrences ''</think>'' (a @ ''<think>'' @ b @ ''</think>'' @ c) =
      occurrences ''</think>'' a + occurrences ''</think>'' (''<think>'' @ b @ ''</think>'' @ c)"
    using occurrences_before_marker [of "CHR ''<''" "''/think>''" a "''think>'' @ b @ ''</think>'' @ c"]
    by simp
  have 2: "occurrences ''</think>'' (''<think>'' @ b @ ''</think>'' @ c) =
      occurrences ''</think>'' (b @ ''</think>'' @ c)"
    using occurrences_skip [of "CHR ''<''" "''think>''" "''/think>''" "b @ ''</think>'' @ c"]
    by simp
  have 3: "occurrences ''</think>'' (b @ ''</think>'' @ c) =
      occurrences ''</think>'' b + occurrences ''</think>'' (''</think>'' @ c)"
    using occurrences_before_marker [of "CHR ''<''" "''/think>''" b "''/think>'' @ c"]
    by simp
  have 4: "occurrences ''</think>'' (''</think>'' @ c) = 1 + occurrences ''</think>'' c"
    using occurrences_skip [of "CHR ''<''" "''/think>''" "''/think>''" c]
    by simp
  show ?thesis unfolding 1 2 3 4 by simp
qed


lemma streamCompletion_streaming:
  assumes "ok r" and "body r = Some reader"
  shows "streamCompletion parse clock True (FetchResponse r) =
     (let st = foldl (apply_event clock (clock 0)) initial_stream_state
                 (stream_events parse (chunks reader))
      in emitted st @ [case ending reader of
                         ReadThrows e \<Rightarrow> OnError e
                       | EndOfData \<Rightarrow> finish clock (clock 0) st])"
  using assms
  by (simp add: streamCompletion_def Let_def read_loop_events split: read_end.splits)

lemma example_events:
  "stream_events example_parse reasoning_then_answer = [reasoning_delta ''a'', content_delta ''42'']"
  by (simp add: stream_events_def reasoning_then_answer_def Let_def map_filter_simps
      line_event_def trim_def is_space_def example_parse_def)


lemma example_events_marker:
  "stream_events example_parse marker_in_answer = [reasoning_delta ''a'', content_delta ''</think>'']"
  by (simp add: stream_events_def marker_in_answer_def Let_def map_filter_simps
      line_event_def trim_def is_space_def example_parse_def)

lemma delta_texts:
  "deltaReasoning (reasoning_delta r) = r"
  "deltaContent (reasoning_delta r) = []"
  "deltaReasoning (content_delta c) = []"
  "deltaContent (content_delta c) = c"
  by (simp_all add: deltaReasoning_def deltaContent_def reasoning_delta_def content_delta_def js_or_def)

lemma streaming_response_fields:
  "ok (streaming_response cs e)"
  "body (streaming_response cs e) = Some \<lparr>chunks = cs, ending = e\<rparr>"
  by (simp_all add: streaming_response_def)

lemma run_marker_in_answer:
  "streamCompletion example_parse example_clock True
     (FetchResponse (streaming_response marker_in_answer EndOfData)) =
   [OnUpdate ''<think>a'' \<lparr>tokenCount = 1, duration = 1 / 10, tps = 10\<rparr>,
    OnUpdate ''<think>a</think></think>'' \<lparr>tokenCount = 2, duration = 1 / 5, tps = 10\<rparr>,
    OnFinish ''<think>a</think></think>'' \<lparr>tokenCount = 2, duration = 3 / 10, tps = 20 / 3\<rparr>]"
  by (simp add: streamCompletion_streaming [of _ "\<lparr>chunks = marker_in_answer, ending = EndOfData\<rparr>"]
      example_events_marker Let_def initial_stream_state_def apply_event_def add_reasoning_def
      add_content_def count_and_notify_def example_clock_def per_second_def finish_def
      final_content_def streaming_response_fields delta_texts)

subsection \<open>C1: the reasoning markers in the final content\<close>

text \<open>
  Claim C1. For every streamed event sequence with at least one non-empty reasoning
  delta, the final content that \<open>onFinish\<close> receives is the delta text, in arrival order,
  with exactly one opening marker and exactly one closing marker inserted, the opening
  one first; this holds however reasoning and answer deltas interleave, and also when the
  stream ends with the reasoning still open. When the delta text itself contains neither
  marker, the final content contains each marker exactly once. (Marker text inside a
  delta is passed through as it is, so without that condition the final content can
  contain more markers: see the counterexample.)
\<close>

theorem merge_inserts_one_marker_pair:
  assumes "ok r" and "body r = Some reader" and "ending reader = EndOfData"
    and "\<exists>d \<in> set (stream_events parse (chunks reader)). deltaReasoning d \<noteq> []"
  shows "\<exists>ups stats a b c.
     streamCompletion parse clock True (FetchResponse r) =
       ups @ [OnFinish (a @ ''<think>'' @ b @ ''</think>'' @ c) stats] \<and>
     a @ b @ c = plain_text (stream_events parse (chunks reader)) \<and>
     (occurrences ''<think>'' (a @ b @ c) = 0 \<and> occurrences ''</think>'' (a @ b @ c) = 0 \<longrightarrow>
        occurrences ''<think>'' (a @ ''<think>'' @ b @ ''</think>'' @ c) = 1 \<and>
        occurrences ''</think>'' (a @ ''<think>'' @ b @ ''</think>'' @ c) = 1)"
proof -
  define ds where "ds = stream_events parse (chunks reader)"
  define st where "st = foldl (apply_event clock (clock 0)) initial_stream_state ds"
  have run: "streamCompletion parse clock True (FetchResponse r) =
      emitted st @ [finish clock (clock 0) st]"
    using streamCompletion_streaming [OF assms(1,2), of parse clock] assms(3)
    by (simp add: st_def ds_def Let_def)
  have "merged st (plain_text ds)"
    using merged_foldl [OF merged_initial, of clock "clock 0" ds] by (simp add: st_def)
  moreover have "hasStartedReasoning st"
    using assms(4) by (simp add: st_def ds_def started_foldl)
  ultimately obtain a b c where abc: "plain_text ds = a @ b @ c"
    and fin: "final_content st = a @ ''<think>'' @ b @ ''</think>'' @ c"
    using final_content_decomposed by blast
  obtain stats where "finish clock (clock 0) st = OnFinish (final_content st) stats"
    by (simp add: finish_def Let_def)
  with run fin have "streamCompletion parse clock True (FetchResponse r) =
      emitted st @ [OnFinish (a @ ''<think>'' @ b @ ''</think>'' @ c) stats]"
    by simp
  moreover have "occurrences ''<think>'' (a @ b @ c) = 0 \<and> occurrences ''</think>'' (a @ b @ c) = 0 \<longrightarrow>
        occurrences ''<think>'' (a @ ''<think>'' @ b @ ''</think>'' @ c) = 1 \<and>
        occurrences ''</think>'' (a @ ''<think>'' @ b @ ''</think>'' @ c) = 1"
  proof
    assume free: "occurrences ''<think>'' (a @ b @ c) = 0 \<and> occurrences ''</think>'' (a @ b @ c) = 0"
    have parts: "occurrences p a = 0 \<and> occurrences p b = 0 \<and> occurrences p c = 0"
      if "occurrences p (a @ b @ c) = 0" and "p \<noteq> []" for p
    proof -
      have "occurrences p a \<le> occurrences p (a @ b @ c)"
        by (rule occurrences_le_left [OF that(2)])
      moreover have "occurrences p b \<le> occurrences p (b @ c)"
        by (rule occurrences_le_left [OF that(2)])
      moreover have "occurrences p (b @ c) \<le> occurrences p (a @ b @ c)"
        by (rule occurrences_le_right)
      moreover have "occurrences p c \<le> occurrences p ((a @ b) @ c)"
        by (rule occurrences_le_right)
      ultimately show ?thesis using that(1) by simp
    qed
    from parts [of "''<think>''"] parts [of "''</think>''"] free
    show "occurrences ''<think>'' (a @ ''<think>'' @ b @ ''</think>'' @ c) = 1 \<and>
        occurrences ''</think>'' (a @ ''<think>'' @ b @ ''</think>'' @ c) = 1"
      unfolding open_count close_count by simp
  qed
  ultimately show ?thesis using abc by (auto simp: ds_def)
qed

theorem marker_count_counterexample:
  "stream_events example_parse marker_in_answer = [reasoning_delta ''a'', content_delta ''</think>''] \<and>
   deltaReasoning (reasoning_delta ''a'') = ''a'' \<and>
   streamCompletion example_parse example_clock True
     (FetchResponse (streaming_response marker_in_answer EndOfData)) =
   [OnUpdate ''<think>a'' \<lparr>tokenCount = 1, duration = 1 / 10, tps = 10\<rparr>,
    OnUpdate ''<think>a</think></think>'' \<lparr>tokenCount = 2, duration = 1 / 5, tps = 10\<rparr>,
    OnFinish ''<think>a</think></think>'' \<lparr>tokenCount = 2, duration = 3 / 10, tps = 20 / 3\<rparr>] \<and>
   occurrences ''</think>'' ''<think>a</think></think>'' = 2"
  by (simp add: example_events_marker run_marker_in_answer delta_texts)

theorem merge_inserts_one_marker_pair_witness:
  "(\<exists>d \<in> set (stream_events example_parse reasoning_then_answer). deltaReasoning d \<noteq> []) \<and>
   (\<exists>ups stats a b c.
      streamCompletion example_parse example_clock True
        (FetchResponse (streaming_response reasoning_then_answer EndOfData)) =
        ups @ [OnFinish (a @ ''<think>'' @ b @ ''</think>'' @ c) stats] \<and>
      a @ b @ c = ''a42'' \<and>
      occurrences ''<think>'' (a @ ''<think>'' @ b @ ''</think>'' @ c) = 1 \<and>
      occurrences ''</think>'' (a @ ''<think>'' @ b @ ''</think>'' @ c) = 1)"
proof -
  let ?reader = "\<lparr>chunks = reasoning_then_answer, ending = EndOfData\<rparr>"
  have h: "\<exists>d \<in> set (stream_events example_parse (chunks ?reader)). deltaReasoning d \<noteq> []"
    by (simp add: example_events delta_texts)
  have plain: "plain_text (stream_events example_parse (chunks ?reader)) = ''a42''"
    by (simp add: example_events plain_text_def delta_texts)
  have r1: "ok (streaming_response reasoning_then_answer EndOfData)"
    and r2: "body (streaming_response reasoning_then_answer EndOfData) = Some ?reader"
    and r3: "ending ?reader = EndOfData"
    by (simp_all add: streaming_response_fields)
  from merge_inserts_one_marker_pair [OF r1 r2 r3 h, of example_clock]
  obtain ups stats a b c where
    run: "streamCompletion example_parse example_clock True
        (FetchResponse (streaming_response reasoning_then_answer EndOfData)) =
        ups @ [OnFinish (a @ ''<think>'' @ b @ ''</think>'' @ c) stats]"
    and abc: "a @ b @ c = plain_text (stream_events example_parse (chunks ?reader))"
    and once: "occurrences ''<think>'' (a @ b @ c) = 0 \<and> occurrences ''</think>'' (a @ b @ c) = 0 \<longrightarrow>
        occurrences ''<think>'' (a @ ''<think>'' @ b @ ''</think>'' @ c) = 1 \<and>
        occurrences ''</think>'' (a @ ''<think>'' @ b @ ''</think>'' @ c) = 1"
    by (elim exE conjE) (rule that, assumption+)
  from abc plain have abc': "a @ b @ c = ''a42''" by simp
  have "occurrences ''<think>'' ''a42'' = 0" "occurrences ''</think>'' ''a42'' = 0"
    by simp_all
  with once abc' have "occurrences ''<think>'' (a @ ''<think>'' @ b @ ''</think>'' @ c) = 1 \<and>
        occurrences ''</think>'' (a @ ''<think>'' @ b @ ''</think>'' @ c) = 1"
    by simp
  with run abc' have "\<exists>ups stats a b c.
      streamCompletion example_parse example_clock True
        (FetchResponse (streaming_response reasoning_then_answer EndOfData)) =
        ups @ [OnFinish (a @ ''<think>'' @ b @ ''</think>'' @ c) stats] \<and>
      a @ b @ c = ''a42'' \<and>
      occurrences ''<think>'' (a @ ''<think>'' @ b @ ''</think>'' @ c) = 1 \<and>
      occurrences ''</think>'' (a @ ''<think>'' @ b @ ''</think>'' @ c) = 1"
    by blast
  moreover from h have "\<exists>d \<in> set (stream_events example_parse reasoning_then_answer). deltaReasoning d \<noteq> []"
    by simp
  ultimately show ?thesis by (rule conjI [rotated])
qed

subsection \<open>The shape of a run and the growth of the delivered content\<close>

lemma delivered_append: "delivered (xs @ ys) = delivered xs @ delivered ys"
  by (induction xs rule: delivered.induct) simp_all

lemma length_delivered_updates:
  "list_all is_update ns \<Longrightarrow> length (delivered ns) = length ns"
  by (induction ns rule: delivered.induct) simp_all

lemma nth_delivered_updates:
  "list_all is_update ns \<Longrightarrow> i < length ns \<Longrightarrow> \<exists>es. ns ! i = OnUpdate (delivered ns ! i) es"
proof (induction ns arbitrary: i rule: delivered.induct)
  case 1
  then show ?case by simp
next
  case (2 c es ns)
  then show ?case by (cases i) auto
next
  case (3 c es ns)
  then show ?case by simp
next
  case (4 e ns)
  then show ?case by simp
qed

lemma emitted_add_reasoning: "emitted (add_reasoning r st) = emitted st"
  by (simp add: add_reasoning_def Let_def)

lemma emitted_add_content: "emitted (add_content c st) = emitted st"
  by (simp add: add_content_def Let_def)

lemma prefix_add_reasoning:
  "prefix (accumulatedContent st) (accumulatedContent (add_reasoning r st))"
  by (simp add: add_reasoning_def Let_def)

lemma prefix_add_content:
  "prefix (accumulatedContent st) (accumulatedContent (add_content c st))"
  by (simp add: add_content_def Let_def)

lemma growing_extend:
  assumes "growing st" and "emitted st' = emitted st"
    and "prefix (accumulatedContent st) (accumulatedContent st')"
  shows "growing st'"
  using assms unfolding growing_def list_all_iff
  by (auto intro: prefix_order.trans)

lemma growing_count_and_notify:
  assumes "growing st"
  shows "growing (count_and_notify clock s st)"
proof (cases "clock (ticks st) - lastUiUpdate st > 33")
  case False
  then show ?thesis
    using assms by (simp add: count_and_notify_def Let_def growing_def)
next
  case True
  then have "emitted (count_and_notify clock s st) =
      emitted st @ [OnUpdate (accumulatedContent st)
        \<lparr>tokenCount = streamTokenCount st + 1,
         duration = real_of_int (clock (ticks st) - s) / 1000,
         tps = per_second (streamTokenCount st + 1) (real_of_int (clock (ticks st) - s) / 1000)\<rparr>]"
    by (simp add: count_and_notify_def Let_def)
  with assms show ?thesis
    by (simp add: growing_def delivered_append sorted_wrt_append list_all_iff
        count_and_notify_fields)
qed

lemma growing_apply_event:
  assumes "growing st"
  shows "growing (apply_event clock s st d)"
proof -
  have "growing (add_reasoning (deltaReasoning d) st)"
    by (rule growing_extend [OF assms]) (simp_all add: prefix_add_reasoning emitted_add_reasoning)
  then have "growing (add_content (deltaContent d) (add_reasoning (deltaReasoning d) st))"
    by (rule growing_extend) (simp_all add: prefix_add_content emitted_add_content)
  then show ?thesis
    by (cases "deltaContent d = [] \<and> deltaReasoning d = []")
       (auto simp: apply_event_def Let_def growing_count_and_notify)
qed

lemma growing_foldl:
  "growing st \<Longrightarrow> growing (foldl (apply_event clock s) st ds)"
  by (induction ds arbitrary: st) (simp_all add: growing_apply_event)

lemma growing_initial: "growing initial_stream_state"
  by (simp add: growing_def initial_stream_state_def)

lemma prefix_final_content: "prefix (accumulatedContent st) (final_content st)"
  by (simp add: final_content_def)

lemma finish_is_OnFinish:
  "\<exists>es. finish clock s st = OnFinish (final_content st) es"
  by (simp add: finish_def Let_def)

text \<open>Every run is a sequence of \<open>onUpdate\<close> calls followed by one terminal call.\<close>

lemma streamCompletion_shape:
  "\<exists>ups t. streamCompletion parse clock stream fetched = ups @ [t] \<and>
     list_all is_update ups \<and> is_terminal t \<and>
     sorted_wrt prefix (delivered ups) \<and>
     (\<forall>c es. t = OnFinish c es \<longrightarrow> list_all (\<lambda>u. prefix u c) (delivered ups))"
proof (cases fetched)
  case (FetchThrows e)
  then show ?thesis by (simp add: streamCompletion_def)
next
  case (FetchResponse r)
  show ?thesis
  proof (cases "ok r \<and> stream \<and> body r \<noteq> None")
    case False
    then consider "\<not> ok r" | "ok r" "\<not> stream" | "ok r" "stream" "body r = None" by auto
    then show ?thesis
    proof cases
      case 1
      then show ?thesis using FetchResponse by (simp add: streamCompletion_def)
    next
      case 2
      then show ?thesis using FetchResponse
        by (simp add: streamCompletion_def Let_def split: json_outcome.splits option.splits)
    next
      case 3
      then show ?thesis using FetchResponse by (simp add: streamCompletion_def)
    qed
  next
    case True
    then obtain reader where r: "ok r" "body r = Some reader" and s: "stream" by auto
    define st where "st = foldl (apply_event clock (clock 0)) initial_stream_state
        (stream_events parse (chunks reader))"
    define t where "t = (case ending reader of
        ReadThrows e \<Rightarrow> OnError e | EndOfData \<Rightarrow> finish clock (clock 0) st)"
    from s have "stream = True" by simp
    then have run: "streamCompletion parse clock stream fetched = emitted st @ [t]"
      unfolding st_def t_def FetchResponse
      by (simp add: streamCompletion_streaming [OF r] Let_def)
    have g: "growing st"
      unfolding st_def by (rule growing_foldl [OF growing_initial])
    have terminal: "is_terminal t"
      using finish_is_OnFinish [of clock "clock 0" st]
      by (auto simp: t_def split: read_end.splits)
    have fin: "list_all (\<lambda>u. prefix u c) (delivered (emitted st))" if "t = OnFinish c es" for c es
    proof -
      from that finish_is_OnFinish [of clock "clock 0" st] have "c = final_content st"
        by (auto simp: t_def split: read_end.splits)
      with g prefix_final_content [of st] show ?thesis
        unfolding growing_def list_all_iff by (auto intro: prefix_order.trans)
    qed
    from run g terminal fin show ?thesis
      unfolding growing_def by blast
  qed
qed

subsection \<open>C2: partial content only grows\<close>

text \<open>
  Claim C2. Within one run of \<open>streamCompletion\<close>, the content of every \<open>onUpdate\<close>
  notification is a prefix of the content of every later \<open>onUpdate\<close> notification and of
  the content of the \<open>onFinish\<close> notification: what was delivered only grows by appending.
\<close>

theorem partial_content_only_grows:
  assumes "ns = streamCompletion parse clock stream fetched"
    and "i < j" and "j < length ns"
    and "ns ! i = OnUpdate c es"
    and "ns ! j = OnUpdate c' es' \<or> ns ! j = OnFinish c' es'"
  shows "prefix c c'"
proof -
  from streamCompletion_shape [of parse clock stream fetched] assms(1)
  obtain ups t where ns: "ns = ups @ [t]" and ups: "list_all is_update ups"
    and t: "is_terminal t" and sorted: "sorted_wrt prefix (delivered ups)"
    and fin: "\<And>c es. t = OnFinish c es \<Longrightarrow> list_all (\<lambda>u. prefix u c) (delivered ups)"
    by blast
  from assms(2,3) ns have i: "i < length ups" by simp
  have len: "length (delivered ups) = length ups"
    by (rule length_delivered_updates [OF ups])
  from nth_delivered_updates [OF ups i] assms(4) ns i
  have ci: "delivered ups ! i = c"
    by (auto simp: nth_append)
  show ?thesis
  proof (cases "j < length ups")
    case True
    from nth_delivered_updates [OF ups True] assms(5) ns True
    have "delivered ups ! j = c'" by (auto simp: nth_append)
    with sorted ci assms(2) True len show ?thesis
      by (auto simp: sorted_wrt_iff_nth_less)
  next
    case False
    with assms(3) ns have "j = length ups" by simp
    with assms(5) ns t have "t = OnFinish c' es'" by auto
    from fin [OF this] ci i len show ?thesis
      by (auto simp: list_all_length)
  qed
qed

theorem partial_content_only_grows_witness:
  "streamCompletion example_parse example_clock True
     (FetchResponse (streaming_response marker_in_answer EndOfData)) ! 0 =
     OnUpdate ''<think>a'' \<lparr>tokenCount = 1, duration = 1 / 10, tps = 10\<rparr> \<and>
   streamCompletion example_parse example_clock True
     (FetchResponse (streaming_response marker_in_answer EndOfData)) ! 2 =
     OnFinish ''<think>a</think></think>'' \<lparr>tokenCount = 2, duration = 3 / 10, tps = 20 / 3\<rparr> \<and>
   prefix ''<think>a'' ''<think>a</think></think>''"
proof -
  let ?ns = "streamCompletion example_parse example_clock True
     (FetchResponse (streaming_response marker_in_answer EndOfData))"
  have "prefix ''<think>a'' ''<think>a</think></think>''"
    by (rule partial_content_only_grows
          [of ?ns example_parse example_clock True
              "FetchResponse (streaming_response marker_in_answer EndOfData)" 0 2])
       (simp_all add: run_marker_in_answer)
  then show ?thesis by (simp add: run_marker_in_answer)
qed

subsection \<open>C8: a malformed event\<close>

lemma streamCompletion_lines:
  assumes "ok r" and "body r = Some reader"
  shows "streamCompletion parse clock True (FetchResponse r) =
     (let st = foldl (process_line parse clock (clock 0)) initial_stream_state
                 (framed_lines [] (chunks reader))
      in emitted st @ [case ending reader of
                         ReadThrows e \<Rightarrow> OnError e
                       | EndOfData \<Rightarrow> finish clock (clock 0) st])"
  using assms
  by (simp add: streamCompletion_def Let_def read_loop_framed split: read_end.splits)

lemma process_line_malformed:
  assumes "prefix ''data: '' (trim bad)" and "parse (drop 6 (trim bad)) = None"
  shows "process_line parse clock s st bad = st"
  using assms by (simp add: process_line_def Let_def)

text \<open>
  Claim C8. A line whose \<open>data: \<close> payload does not parse leaves the state of the
  ingestion as it was, and a run over a stream that contains such a line makes the
  callbacks of the lines before it and after it, in order, and then the terminal
  callback: the malformed line aborts nothing.
\<close>

theorem malformed_line_is_skipped:
  assumes "prefix ''data: '' (trim bad)" and "parse (drop 6 (trim bad)) = None"
    and "ok r" and "body r = Some reader"
    and "framed_lines [] (chunks reader) = before @ bad # after"
  shows "process_line parse clock s st bad = st \<and>
     (\<exists>t. streamCompletion parse clock True (FetchResponse r) =
            emitted (foldl (process_line parse clock (clock 0)) initial_stream_state
                       (before @ after)) @ [t] \<and>
          is_terminal t \<and>
          t = (case ending reader of
                 ReadThrows e \<Rightarrow> OnError e
               | EndOfData \<Rightarrow>
                   finish clock (clock 0)
                     (foldl (process_line parse clock (clock 0)) initial_stream_state
                        (before @ after))))"
proof -
  have "foldl (process_line parse clock (clock 0)) initial_stream_state (before @ bad # after) =
      foldl (process_line parse clock (clock 0)) initial_stream_state (before @ after)"
    by (simp add: process_line_malformed [where parse = parse, OF assms(1,2)])
  then have "read_loop parse clock (clock 0) [] initial_stream_state (chunks reader) =
      foldl (process_line parse clock (clock 0)) initial_stream_state (before @ after)"
    by (simp add: read_loop_framed assms(5))
  moreover have "is_terminal (case ending reader of
                 ReadThrows e \<Rightarrow> OnError e
               | EndOfData \<Rightarrow> finish clock (clock 0) st')" for st'
    using finish_is_OnFinish [of clock "clock 0" st'] by (auto split: read_end.splits)
  ultimately show ?thesis
    using assms(3,4)
    by (simp add: process_line_malformed [where parse = parse, OF assms(1,2)] streamCompletion_def Let_def
        split: read_end.splits)
qed

lemma example_lines_malformed:
  \<open>framed_lines [] with_malformed_line =
     [''data: {"choices":[{"delta":{"reasoning_content":"a"}}]}''] @
     ''data: {"choi'' #
     [''data: {"choices":[{"delta":{"content":"42"}}]}'', ''data: [DONE]'']\<close>
  by (simp add: with_malformed_line_def Let_def)

lemma example_lines:
  \<open>framed_lines [] reasoning_then_answer =
     [''data: {"choices":[{"delta":{"reasoning_content":"a"}}]}''] @
     [''data: {"choices":[{"delta":{"content":"42"}}]}'', ''data: [DONE]'']\<close>
  by (simp add: reasoning_then_answer_def Let_def)

lemma run_reasoning_then_answer:
  "streamCompletion example_parse example_clock True
     (FetchResponse (streaming_response reasoning_then_answer EndOfData)) =
   [OnUpdate ''<think>a'' \<lparr>tokenCount = 1, duration = 1 / 10, tps = 10\<rparr>,
    OnUpdate ''<think>a</think>42'' \<lparr>tokenCount = 2, duration = 1 / 5, tps = 10\<rparr>,
    OnFinish ''<think>a</think>42'' \<lparr>tokenCount = 2, duration = 3 / 10, tps = 20 / 3\<rparr>]"
  by (simp add: streamCompletion_streaming [of _ "\<lparr>chunks = reasoning_then_answer, ending = EndOfData\<rparr>"]
      example_events Let_def initial_stream_state_def apply_event_def add_reasoning_def
      add_content_def count_and_notify_def example_clock_def per_second_def finish_def
      final_content_def streaming_response_fields delta_texts)

theorem malformed_line_is_skipped_witness:
  \<open>process_line example_parse example_clock 0 initial_stream_state ''data: {"choi'' =
     initial_stream_state \<and>
   streamCompletion example_parse example_clock True
     (FetchResponse (streaming_response with_malformed_line EndOfData)) =
   streamCompletion example_parse example_clock True
     (FetchResponse (streaming_response reasoning_then_answer EndOfData)) \<and>
   streamCompletion example_parse example_clock True
     (FetchResponse (streaming_response with_malformed_line EndOfData)) =
   [OnUpdate ''<think>a'' \<lparr>tokenCount = 1, duration = 1 / 10, tps = 10\<rparr>,
    OnUpdate ''<think>a</think>42'' \<lparr>tokenCount = 2, duration = 1 / 5, tps = 10\<rparr>,
    OnFinish ''<think>a</think>42'' \<lparr>tokenCount = 2, duration = 3 / 10, tps = 20 / 3\<rparr>]\<close>
proof -
  let ?bad = \<open>''data: {"choi''\<close>
  let ?reader = "\<lparr>chunks = with_malformed_line, ending = EndOfData\<rparr>"
  have b1: "prefix ''data: '' (trim ?bad)"
    by (simp add: trim_def is_space_def)
  have b2: "example_parse (drop 6 (trim ?bad)) = None"
    by (simp add: trim_def is_space_def example_parse_def)
  have r1: "ok (streaming_response with_malformed_line EndOfData)"
    and r2: "body (streaming_response with_malformed_line EndOfData) = Some ?reader"
    by (simp_all add: streaming_response_fields)
  have l: \<open>framed_lines [] (chunks ?reader) =
     [''data: {"choices":[{"delta":{"reasoning_content":"a"}}]}''] @ ?bad #
     [''data: {"choices":[{"delta":{"content":"42"}}]}'', ''data: [DONE]'']\<close>
    using example_lines_malformed by simp
  note skipped = malformed_line_is_skipped
    [where parse = example_parse and clock = example_clock and s = 0 and st = initial_stream_state,
     OF b1 b2 r1 r2 l]
  define st where \<open>st = foldl (process_line example_parse example_clock (example_clock 0))
      initial_stream_state
      ([''data: {"choices":[{"delta":{"reasoning_content":"a"}}]}''] @
       [''data: {"choices":[{"delta":{"content":"42"}}]}'', ''data: [DONE]''])\<close>
  from skipped have bad_run: "streamCompletion example_parse example_clock True
       (FetchResponse (streaming_response with_malformed_line EndOfData)) =
     emitted st @ [finish example_clock (example_clock 0) st]"
    unfolding st_def by auto
  have g1: "ok (streaming_response reasoning_then_answer EndOfData)"
    and g2: "body (streaming_response reasoning_then_answer EndOfData) =
      Some \<lparr>chunks = reasoning_then_answer, ending = EndOfData\<rparr>"
    by (simp_all add: streaming_response_fields)
  have good_run: "streamCompletion example_parse example_clock True
       (FetchResponse (streaming_response reasoning_then_answer EndOfData)) =
     emitted st @ [finish example_clock (example_clock 0) st]"
    unfolding st_def
    by (simp add: streamCompletion_lines [OF g1 g2] example_lines Let_def)
  from skipped bad_run good_run show ?thesis
    by (simp add: run_reasoning_then_answer)
qed

subsection \<open>C9: the token count of the non-streaming branch\<close>

lemma nonstream_tokenCount_positive:
  "0 < n \<Longrightarrow> nonstream_tokenCount (Some n) c = n"
  by (simp add: nonstream_tokenCount_def)

lemma nonstream_tokenCount_absent:
  "nonstream_tokenCount None c = (length c + 3) div 4"
  by (simp add: nonstream_tokenCount_def)

text \<open>
  Claim C9. In non-streaming mode the token count of the terminal statistics is the
  server's \<open>usage.completion_tokens\<close> whenever the response carries that counter, and the
  estimate of one token per four characters only when it carries none. The run below is
  a response whose counter is present with the value 0 and whose content is
  \<open>hello\<close>: the reported count is the estimate 2, not the counter.
\<close>

theorem zero_usage_counter_replaced_by_estimate:
  "streamCompletion example_parse example_clock False
     (FetchResponse (json_response
        \<lparr>choice_message = Some (content_delta ''hello''), completion_tokens = Some 0\<rparr>)) =
   [OnFinish ''hello'' \<lparr>tokenCount = 2, duration = 1 / 10, tps = 20\<rparr>]"
  by (simp add: streamCompletion_def json_response_def Let_def nonstream_content_def
      nonstream_tokenCount_def content_delta_def js_or_def example_clock_def per_second_def)

section \<open>Properties of the generation controller and the version tree\<close>

subsection \<open>C3: cancellation\<close>

lemma run_fetch_throws: "streamCompletion parse clock stream (FetchThrows e) = [OnError e]"
  by (simp add: streamCompletion_def)

lemma run_read_throws:
  assumes "ok r" and "body r = Some reader" and "ending reader = ReadThrows e"
  shows "\<exists>ups. streamCompletion parse clock True (FetchResponse r) = ups @ [OnError e] \<and>
           list_all is_update ups"
proof -
  from streamCompletion_shape [of parse clock True "FetchResponse r"]
  obtain ups t where run: "streamCompletion parse clock True (FetchResponse r) = ups @ [t]"
    and ups: "list_all is_update ups"
    by blast
  from assms have "streamCompletion parse clock True (FetchResponse r) =
      emitted (read_loop parse clock (clock 0) [] initial_stream_state (chunks reader)) @ [OnError e]"
    by (simp add: streamCompletion_def Let_def)
  with run have "t = OnError e" by simp
  with run ups show ?thesis by blast
qed

lemma run_json_throws:
  assumes "ok r" and "json r = JsonThrows e"
  shows "streamCompletion parse clock False (FetchResponse r) = [OnError e]"
  using assms by (simp add: streamCompletion_def)

lemma onError_abort: "name e = ''AbortError'' \<Longrightarrow> onError ti e st = st"
  by (simp add: onError_def)

text \<open>
  Claim C3. When the cancellation token aborts the request, before the response arrives
  or during a read, the engine makes exactly one terminal call, and it is \<open>onError\<close>,
  the callback that genuine errors use too, with the error named \<open>AbortError\<close> that the
  transport threw. The controller's \<open>onError\<close> recognises the name and changes nothing:
  no error turn is written and the partial content stays.
\<close>

theorem cancellation_passes_through_onError:
  assumes "name e = ''AbortError''"
  shows "streamCompletion parse clock stream (FetchThrows e) = [OnError e] \<and>
     (ok r \<and> body r = Some reader \<and> ending reader = ReadThrows e \<longrightarrow>
        (\<exists>ups. streamCompletion parse clock True (FetchResponse r) = ups @ [OnError e] \<and>
               list_all is_update ups)) \<and>
     (ok r \<and> json r = JsonThrows e \<longrightarrow>
        streamCompletion parse clock False (FetchResponse r) = [OnError e]) \<and>
     onError ti e st = st \<and>
     deliver rendered ti sid st (OnError e) = st"
  using assms run_read_throws [of r reader e parse clock] run_json_throws [of r e parse clock]
  by (simp add: run_fetch_throws onError_abort deliver_def)

theorem cancellation_same_channel_counterexample:
  "streamCompletion example_parse example_clock True (FetchThrows abort_error) =
     [OnError abort_error] \<and>
   streamCompletion example_parse example_clock True (FetchThrows network_error) =
     [OnError network_error] \<and>
   name abort_error = ''AbortError'' \<and> name network_error = ''TypeError''"
  by (simp add: run_fetch_throws abort_error_def network_error_def)

lemma run_one_delta:
  "streamCompletion example_parse example_clock True
     (FetchResponse (streaming_response one_delta (ReadThrows e))) =
   [OnUpdate ''<think>a'' \<lparr>tokenCount = 1, duration = 1 / 10, tps = 10\<rparr>, OnError e]"
  by (simp add: streamCompletion_def Let_def one_delta_def process_line_def trim_def
      is_space_def example_parse_def reasoning_delta_def
      initial_stream_state_def apply_event_def add_reasoning_def deltaReasoning_def
      deltaContent_def js_or_def streaming_response_fields
      add_content_def count_and_notify_def example_clock_def per_second_def)

theorem cancellation_passes_through_onError_witness:
  "name abort_error = ''AbortError'' \<and>
   streamCompletion example_parse example_clock True
     (FetchResponse (streaming_response one_delta (ReadThrows abort_error))) =
   [OnUpdate ''<think>a'' \<lparr>tokenCount = 1, duration = 1 / 10, tps = 10\<rparr>, OnError abort_error] \<and>
   onError (Some 1) abort_error (example_state [user_turn ''hi'', assistant_turn ''<think>a''] False) =
     example_state [user_turn ''hi'', assistant_turn ''<think>a''] False"
proof -
  have n: "name abort_error = ''AbortError''"
    by (simp add: abort_error_def)
  from cancellation_passes_through_onError
    [where parse = example_parse and clock = example_clock and stream = True
       and r = "streaming_response one_delta (ReadThrows abort_error)"
       and reader = "\<lparr>chunks = one_delta, ending = ReadThrows abort_error\<rparr>"
       and ti = "Some 1"
       and st = "example_state [user_turn ''hi'', assistant_turn ''<think>a''] False", OF n]
  show ?thesis
    by (simp add: n run_one_delta)
qed

subsection \<open>C4: a generation that ends with an error\<close>

text \<open>
  Claim C4. When a generation for an existing target turn ends with an error other than
  a cancellation, the controller puts the rendered error message
  \<open>**Error**: <message>\<close> in the place of the turn's content, whether or not partial
  content had streamed into it; the turn stays an assistant turn, the other turns are
  untouched and the in-flight flag is cleared.
\<close>

theorem error_replaces_target_content:
  assumes "name e \<noteq> ''AbortError''" and "i < length (messages st)"
  shows "length (messages (onError (Some i) e st)) = length (messages st) \<and>
     content (messages (onError (Some i) e st) ! i) = ''**Error**: '' @ message e \<and>
     role (messages (onError (Some i) e st) ! i) = Assistant \<and>
     (\<forall>j. j < length (messages st) \<and> j \<noteq> i \<longrightarrow>
        messages (onError (Some i) e st) ! j = messages st ! j) \<and>
     \<not> isLoading (onError (Some i) e st)"
  using assms by (simp add: onError_def Let_def empty_assistant_def)

theorem partial_content_lost_counterexample:
  "streamCompletion example_parse example_clock True
     (FetchResponse (streaming_response one_delta (ReadThrows network_error))) =
   [OnUpdate ''<think>a'' \<lparr>tokenCount = 1, duration = 1 / 10, tps = 10\<rparr>, OnError network_error] \<and>
   content (messages (onUpdate (Some 1) ''<think>a'' \<lparr>tokenCount = 1, duration = 1 / 10, tps = 10\<rparr>
     (example_state [user_turn ''hi'', assistant_turn ''''] True)) ! 1) = ''<think>a'' \<and>
   content (messages (processGeneration example_parse example_clock True
     (FetchResponse (streaming_response one_delta (ReadThrows network_error)))
     True ''chat1'' (Some 1) (example_state [user_turn ''hi'', assistant_turn ''''] False)) ! 1) =
     ''**Error**: Failed to fetch'' \<and>
   \<not> prefix ''<think>a'' ''**Error**: Failed to fetch''"
  by (simp add: run_one_delta processGeneration_def processGeneration_begin_def deliver_def
      onUpdate_def write_target_def actualIndex_def overwrite_turn_def Let_def
      onError_def network_error_def example_state_def user_turn_def assistant_turn_def
      empty_assistant_def)

theorem error_replaces_target_content_witness:
  "name network_error \<noteq> ''AbortError'' \<and>
   content (messages (onError (Some 1) network_error
     (example_state [user_turn ''hi'', assistant_turn ''<think>a''] True)) ! 1) =
     ''**Error**: Failed to fetch'' \<and>
   messages (onError (Some 1) network_error
     (example_state [user_turn ''hi'', assistant_turn ''<think>a''] True)) ! 0 = user_turn ''hi''"
proof -
  have n: "name network_error \<noteq> ''AbortError''"
    by (simp add: network_error_def)
  have l: "1 < length (messages (example_state [user_turn ''hi'', assistant_turn ''<think>a''] True))"
    by (simp add: example_state_def)
  from error_replaces_target_content [OF n l]
  show ?thesis
    by (simp add: n network_error_def example_state_def)
qed

subsection \<open>C5: single flight\<close>

lemma isLoading_begin: "isLoading (fst (processGeneration_begin ti st))"
  by (simp add: processGeneration_begin_def Let_def split: option.splits)

lemma isLoading_onUpdate: "isLoading (onUpdate ti c es st) = isLoading st"
  by (simp add: onUpdate_def)

lemma handleRegenerate_loading: "isLoading st \<Longrightarrow> handleRegenerate st = (st, None)"
  by (simp add: handleRegenerate_def)

lemma isLoading_updateSession: "isLoading (updateSession s st) = isLoading st"
  by (simp add: updateSession_def saveSession_def)

lemma isLoading_handleVersionChange:
  "handleVersionChange i v st = Inr st' \<Longrightarrow> isLoading st' = isLoading st"
  by (auto simp: handleVersionChange_def Let_def isLoading_updateSession
      split: if_splits option.splits)

lemma fst_start_generation:
  "fst (start_generation ctx sid ti st) = fst (processGeneration_begin ti st)"
  by (simp add: start_generation_def split: prod.splits)

lemma isLoading_handleSendMessage: "isLoading (fst (handleSendMessage now today c imgs st))"
  by (simp add: handleSendMessage_def Let_def fst_start_generation isLoading_begin)

lemma generating_isLoading: "generating st \<Longrightarrow> isLoading st"
proof (induction rule: generating.induct)
  case (begun ti st)
  show ?case by (rule isLoading_begin)
next
  case (partial st ti c es)
  then show ?case by (simp add: isLoading_onUpdate)
next
  case (regenerate st)
  then show ?case by (simp add: handleRegenerate_loading)
next
  case (version st i v st')
  then show ?case by (simp add: isLoading_handleVersionChange)
next
  case (send st now today c imgs)
  show ?case by (rule isLoading_handleSendMessage)
qed

text \<open>
  Claim C5. From the beginning of a generation up to the first terminal notification or
  stop, through every partial notification, attempt to regenerate, version change and
  send in between, the flag \<open>isLoading\<close> is set and \<open>handleRegenerate\<close> is a no-op that
  starts no generation. The flag is a single one for the whole application, not one per
  conversation: the rejection holds whatever conversation and turns are current.
\<close>

theorem regenerate_rejected_while_in_flight:
  assumes "generating st"
  shows "isLoading st \<and> handleRegenerate st = (st, None) \<and>
     handleRegenerate (st\<lparr>messages := ms, currentChatId := c\<rparr>) =
       (st\<lparr>messages := ms, currentChatId := c\<rparr>, None)"
  using generating_isLoading [OF assms]
  by (simp add: handleRegenerate_def)

lemma example_partial_state:
  "onUpdate (Some 1) ''par'' \<lparr>tokenCount = 1, duration = 1 / 10, tps = 10\<rparr>
     (fst (processGeneration_begin None (example_state [user_turn ''hi''] False))) =
   example_state
     [user_turn ''hi'',
      (assistant_turn ''par'')
        \<lparr>stats := Some \<lparr>totalTokens = 1, generationTime = 1 / 10, tokensPerSecond = 10\<rparr>\<rparr>] True"
  by (simp add: onUpdate_def processGeneration_begin_def example_state_def Let_def
      write_target_def actualIndex_def overwrite_turn_def empty_assistant_def assistant_turn_def)

theorem send_while_in_flight_counterexample:
  "isLoading (example_state [user_turn ''hi'', assistant_turn ''par''] True) \<and>
   handleSendMessage 0 0 ''more'' None (example_state [user_turn ''hi'', assistant_turn ''par''] True) =
     (example_state [user_turn ''hi'', assistant_turn ''par'', user_turn ''more'', empty_assistant] True,
      Some \<lparr>messagesToUse = [user_turn ''hi'', assistant_turn ''par'', user_turn ''more''],
            sessionId = ''chat1'', targetIndex = Some 3\<rparr>) \<and>
   fst (processGeneration_begin None (example_state [user_turn ''hi'', assistant_turn ''par''] True)) =
     example_state [user_turn ''hi'', assistant_turn ''par'', empty_assistant] True \<and>
   isLoading (onFinish True (Some 1) ''chat1'' ''part'' \<lparr>tokenCount = 1, duration = 1 / 10, tps = 10\<rparr>
     (example_state [user_turn ''hi'', assistant_turn ''par'', user_turn ''more'', empty_assistant] True)) =
     False \<and>
   map_option targetIndex
     (snd (handleRegenerate
        (onFinish True (Some 1) ''chat1'' ''part'' \<lparr>tokenCount = 1, duration = 1 / 10, tps = 10\<rparr>
           (example_state [user_turn ''hi'', assistant_turn ''par'', user_turn ''more'', empty_assistant]
              True)))) = Some (Some 3) \<and>
   currentChatId (example_state [user_turn ''hi''] False) = Some ''chat1'' \<and>
   handleRegenerate
     ((fst (processGeneration_begin None (example_state [user_turn ''hi''] False)))
        \<lparr>messages := [user_turn ''other'', assistant_turn ''answer''], currentChatId := Some ''chat2''\<rparr>) =
     ((fst (processGeneration_begin None (example_state [user_turn ''hi''] False)))
        \<lparr>messages := [user_turn ''other'', assistant_turn ''answer''], currentChatId := Some ''chat2''\<rparr>,
      None)"
  by (simp add: handleSendMessage_def start_generation_def processGeneration_begin_def
      example_state_def truthy_def Let_def user_turn_def handleRegenerate_def
      onFinish_def getSession_def write_target_def actualIndex_def overwrite_turn_def
      assistant_turn_def empty_assistant_def)

theorem regenerate_rejected_while_in_flight_witness:
  "onUpdate (Some 1) ''par'' \<lparr>tokenCount = 1, duration = 1 / 10, tps = 10\<rparr>
     (fst (processGeneration_begin None (example_state [user_turn ''hi''] False))) =
   example_state
     [user_turn ''hi'',
      (assistant_turn ''par'')
        \<lparr>stats := Some \<lparr>totalTokens = 1, generationTime = 1 / 10, tokensPerSecond = 10\<rparr>\<rparr>] True \<and>
   handleRegenerate
     (example_state
        [user_turn ''hi'',
         (assistant_turn ''par'')
           \<lparr>stats := Some \<lparr>totalTokens = 1, generationTime = 1 / 10, tokensPerSecond = 10\<rparr>\<rparr>] True) =
   (example_state
      [user_turn ''hi'',
       (assistant_turn ''par'')
         \<lparr>stats := Some \<lparr>totalTokens = 1, generationTime = 1 / 10, tokensPerSecond = 10\<rparr>\<rparr>] True,
    None)"
proof -
  have "generating (onUpdate (Some 1) ''par'' \<lparr>tokenCount = 1, duration = 1 / 10, tps = 10\<rparr>
     (fst (processGeneration_begin None (example_state [user_turn ''hi''] False))))"
    by (intro generating.partial generating.begun)
  note rejected = regenerate_rejected_while_in_flight [OF this, unfolded example_partial_state]
  from rejected example_partial_state show ?thesis
    by simp
qed

subsection \<open>C6: the active sibling mirrors the turn\<close>

lemma js_get_js_set: "js_get (js_set xs k v) k = Some v"
  by (simp add: js_get_def js_set_def nth_append)

lemma js_get_js_set_other: "j \<noteq> k \<Longrightarrow> js_get (js_set xs k v) j = js_get xs j"
  by (auto simp: js_get_def js_set_def nth_append nth_Cons')

lemma length_js_set: "length (js_set xs k v) = max (length xs) (Suc k)"
  by (auto simp: js_set_def)

lemma overwrite_turn_fields:
  "content (overwrite_turn c es m) = c \<and>
   stats (overwrite_turn c es m) =
     Some \<lparr>totalTokens = tokenCount es, generationTime = duration es, tokensPerSecond = tps es\<rparr> \<and>
   role (overwrite_turn c es m) = role m \<and>
   images (overwrite_turn c es m) = images m \<and>
   siblingIndex (overwrite_turn c es m) = siblingIndex m"
  by (simp add: overwrite_turn_def Let_def split: option.splits)

lemma overwrite_turn_no_siblings:
  "siblings m = None \<Longrightarrow> siblings (overwrite_turn c es m) = None"
  by (simp add: overwrite_turn_def Let_def)

lemma overwrite_turn_no_index:
  "siblings m = Some sibs \<Longrightarrow> siblingIndex m = None \<Longrightarrow>
     siblings (overwrite_turn c es m) = Some sibs"
  by (simp add: overwrite_turn_def Let_def)

lemma overwrite_turn_active_sibling:
  assumes "siblings m = Some sibs" and "siblingIndex m = Some k"
  shows "\<exists>sibs' v. siblings (overwrite_turn c es m) = Some sibs' \<and>
     length sibs' = max (length sibs) (Suc k) \<and>
     js_get sibs' k = Some v \<and> sib_content v = c \<and>
     sib_stats v =
       Some \<lparr>totalTokens = tokenCount es, generationTime = duration es, tokensPerSecond = tps es\<rparr> \<and>
     sib_role v = (case js_get sibs k of None \<Rightarrow> None | Some old \<Rightarrow> sib_role old) \<and>
     (\<forall>j. j \<noteq> k \<longrightarrow> js_get sibs' j = js_get sibs j)"
proof -
  define v where "v = (case js_get sibs k of
      None \<Rightarrow> \<lparr>sib_role = None, sib_content = c,
               sib_stats = Some \<lparr>totalTokens = tokenCount es, generationTime = duration es,
                                  tokensPerSecond = tps es\<rparr>\<rparr>
    | Some old \<Rightarrow> old\<lparr>sib_content := c,
               sib_stats := Some \<lparr>totalTokens = tokenCount es, generationTime = duration es,
                                   tokensPerSecond = tps es\<rparr>\<rparr>)"
  have s: "siblings (overwrite_turn c es m) = Some (js_set sibs k v)"
    using assms by (simp add: overwrite_turn_def Let_def v_def split: option.splits)
  have f: "sib_content v = c \<and>
     sib_stats v =
       Some \<lparr>totalTokens = tokenCount es, generationTime = duration es, tokensPerSecond = tps es\<rparr> \<and>
     sib_role v = (case js_get sibs k of None \<Rightarrow> None | Some old \<Rightarrow> sib_role old)"
    by (simp add: v_def split: option.splits)
  from s f show ?thesis
    by (intro exI [of _ "js_set sibs k v"] exI [of _ v])
       (simp add: js_get_js_set js_get_js_set_other length_js_set)
qed

lemma sibling_synced_overwrite_turn: "sibling_synced (overwrite_turn c es m)"
  by (simp add: sibling_synced_def overwrite_turn_def Let_def js_get_js_set
      split: option.splits)

lemma messages_updateSession: "messages (updateSession s st) = messages st"
  by (simp add: updateSession_def saveSession_def)

lemma messages_onFinish:
  "messages (onFinish rendered ti sid c es st) = write_target ti c es (messages st)"
  by (simp add: onFinish_def Let_def messages_updateSession split: option.splits)

lemma messages_onUpdate:
  "messages (onUpdate ti c es st) = write_target ti c es (messages st)"
  by (simp add: onUpdate_def)

lemma write_target_in_range:
  assumes "0 \<le> actualIndex ti prev" and "actualIndex ti prev < int (length prev)"
  shows "write_target ti c es prev =
     prev[nat (actualIndex ti prev) := overwrite_turn c es (prev ! nat (actualIndex ti prev))]"
  using assms by (simp add: write_target_def Let_def)

text \<open>
  Claim C6. After every write of a notification into the target turn, by \<open>onUpdate\<close> and
  by \<open>onFinish\<close> alike, the turn carries the notification's content and statistics and
  keeps its role, images, siblings list and sibling index; if it has a siblings list and
  a sibling index, the entry of the list at that index carries exactly the notification's
  content and statistics, as the turn does, and every other entry of the list is as it
  was (the list grows only when the index lay beyond its end). A turn without a sibling index keeps its list, and no other turn changes.
\<close>

theorem write_keeps_active_sibling_synced:
  assumes "0 \<le> actualIndex ti (messages st)"
    and "actualIndex ti (messages st) < int (length (messages st))"
    and "w = onUpdate ti c es st \<or> w = onFinish rendered ti sid c es st"
    and "i = nat (actualIndex ti (messages st))"
    and "written =
      Some \<lparr>totalTokens = tokenCount es, generationTime = duration es, tokensPerSecond = tps es\<rparr>"
  shows "content (messages w ! i) = c \<and> stats (messages w ! i) = written \<and>
     role (messages w ! i) = role (messages st ! i) \<and>
     images (messages w ! i) = images (messages st ! i) \<and>
     siblingIndex (messages w ! i) = siblingIndex (messages st ! i) \<and>
     sibling_synced (messages w ! i) \<and>
     (siblings (messages st ! i) = None \<longrightarrow> siblings (messages w ! i) = None) \<and>
     (\<forall>sibs. siblings (messages st ! i) = Some sibs \<and> siblingIndex (messages st ! i) = None \<longrightarrow>
        siblings (messages w ! i) = Some sibs) \<and>
     (\<forall>sibs k. siblings (messages st ! i) = Some sibs \<and> siblingIndex (messages st ! i) = Some k \<longrightarrow>
        (\<exists>sibs' v. siblings (messages w ! i) = Some sibs' \<and>
           length sibs' = max (length sibs) (Suc k) \<and>
           js_get sibs' k = Some v \<and> sib_content v = c \<and> sib_stats v = written \<and>
           sib_role v = (case js_get sibs k of None \<Rightarrow> None | Some old \<Rightarrow> sib_role old) \<and>
           (\<forall>j. j \<noteq> k \<longrightarrow> js_get sibs' j = js_get sibs j))) \<and>
     length (messages w) = length (messages st) \<and>
     (\<forall>j. j < length (messages st) \<and> j \<noteq> i \<longrightarrow> messages w ! j = messages st ! j)"
proof -
  define m where "m = messages st ! i"
  from assms(3) have "messages w = write_target ti c es (messages st)"
    by (auto simp: messages_onUpdate messages_onFinish)
  with write_target_in_range [OF assms(1,2)] assms(4)
  have w: "messages w = (messages st)[i := overwrite_turn c es m]"
    by (simp add: m_def)
  from assms(1,2,4) have i: "i < length (messages st)" by simp
  with w have at: "messages w ! i = overwrite_turn c es m" by simp
  have fields: "content (messages w ! i) = c \<and> stats (messages w ! i) = written \<and>
     role (messages w ! i) = role m \<and> images (messages w ! i) = images m \<and>
     siblingIndex (messages w ! i) = siblingIndex m"
    unfolding at assms(5) by (rule overwrite_turn_fields)
  have synced: "sibling_synced (messages w ! i)"
    unfolding at by (rule sibling_synced_overwrite_turn)
  have none: "siblings m = None \<longrightarrow> siblings (messages w ! i) = None"
    unfolding at by (simp add: overwrite_turn_no_siblings)
  have noindex: "\<forall>sibs. siblings m = Some sibs \<and> siblingIndex m = None \<longrightarrow>
        siblings (messages w ! i) = Some sibs"
    unfolding at by (simp add: overwrite_turn_no_index)
  have active: "\<forall>sibs k. siblings m = Some sibs \<and> siblingIndex m = Some k \<longrightarrow>
        (\<exists>sibs' v. siblings (messages w ! i) = Some sibs' \<and>
           length sibs' = max (length sibs) (Suc k) \<and>
           js_get sibs' k = Some v \<and> sib_content v = c \<and> sib_stats v = written \<and>
           sib_role v = (case js_get sibs k of None \<Rightarrow> None | Some old \<Rightarrow> sib_role old) \<and>
           (\<forall>j. j \<noteq> k \<longrightarrow> js_get sibs' j = js_get sibs j))"
    unfolding at assms(5) using overwrite_turn_active_sibling [of m _ _ c es] by blast
  have others: "length (messages w) = length (messages st) \<and>
     (\<forall>j. j < length (messages st) \<and> j \<noteq> i \<longrightarrow> messages w ! j = messages st ! j)"
    unfolding w by simp
  from fields synced none noindex active others show ?thesis
    unfolding m_def by blast
qed


theorem write_keeps_active_sibling_synced_witness:
  "siblings (messages (onUpdate (Some 1) ''third'' \<lparr>tokenCount = 1, duration = 1 / 10, tps = 10\<rparr>
      (example_state [user_turn ''hi'', regenerated_turn] True)) ! 1) =
     Some [Some \<lparr>sib_role = Some Assistant, sib_content = ''first'', sib_stats = None\<rparr>,
           Some \<lparr>sib_role = Some Assistant, sib_content = ''third'',
                 sib_stats = Some \<lparr>totalTokens = 1, generationTime = 1 / 10, tokensPerSecond = 10\<rparr>\<rparr>] \<and>
   siblings (messages (onFinish True (Some 1) ''chat1'' ''third'' \<lparr>tokenCount = 1, duration = 1 / 10, tps = 10\<rparr>
      (example_state [user_turn ''hi'', regenerated_turn] True)) ! 1) =
     Some [Some \<lparr>sib_role = Some Assistant, sib_content = ''first'', sib_stats = None\<rparr>,
           Some \<lparr>sib_role = Some Assistant, sib_content = ''third'',
                 sib_stats = Some \<lparr>totalTokens = 1, generationTime = 1 / 10, tokensPerSecond = 10\<rparr>\<rparr>] \<and>
   content (messages (onFinish True (Some 1) ''chat1'' ''third'' \<lparr>tokenCount = 1, duration = 1 / 10, tps = 10\<rparr>
      (example_state [user_turn ''hi'', regenerated_turn] True)) ! 1) = ''third'' \<and>
   stats (messages (onFinish True (Some 1) ''chat1'' ''third'' \<lparr>tokenCount = 1, duration = 1 / 10, tps = 10\<rparr>
      (example_state [user_turn ''hi'', regenerated_turn] True)) ! 1) =
     Some \<lparr>totalTokens = 1, generationTime = 1 / 10, tokensPerSecond = 10\<rparr> \<and>
   siblingIndex (messages (onFinish True (Some 1) ''chat1'' ''third'' \<lparr>tokenCount = 1, duration = 1 / 10, tps = 10\<rparr>
      (example_state [user_turn ''hi'', regenerated_turn] True)) ! 1) = Some 1 \<and>
   sibling_synced (messages (onUpdate (Some 1) ''third'' \<lparr>tokenCount = 1, duration = 1 / 10, tps = 10\<rparr>
      (example_state [user_turn ''hi'', regenerated_turn] True)) ! 1) \<and>
   sibling_synced (messages (onFinish True (Some 1) ''chat1'' ''third'' \<lparr>tokenCount = 1, duration = 1 / 10, tps = 10\<rparr>
      (example_state [user_turn ''hi'', regenerated_turn] True)) ! 1)"
proof -
  let ?st = "example_state [user_turn ''hi'', regenerated_turn] True"
  let ?es = "\<lparr>tokenCount = 1, duration = 1 / 10, tps = 10\<rparr>"
  let ?written = "Some \<lparr>totalTokens = tokenCount ?es, generationTime = duration ?es,
    tokensPerSecond = tps ?es\<rparr>"
  have a: "0 \<le> actualIndex (Some 1) (messages ?st)"
    and b: "actualIndex (Some 1) (messages ?st) < int (length (messages ?st))"
    and n: "1 = nat (actualIndex (Some 1) (messages ?st))"
    by (simp_all add: actualIndex_def example_state_def)
  have u: "onUpdate (Some 1) ''third'' ?es ?st = onUpdate (Some 1) ''third'' ?es ?st \<or>
      onUpdate (Some 1) ''third'' ?es ?st = onFinish True (Some 1) ''chat1'' ''third'' ?es ?st"
    and f: "onFinish True (Some 1) ''chat1'' ''third'' ?es ?st = onUpdate (Some 1) ''third'' ?es ?st \<or>
      onFinish True (Some 1) ''chat1'' ''third'' ?es ?st =
        onFinish True (Some 1) ''chat1'' ''third'' ?es ?st"
    by simp_all
  have w: "?written = ?written" by (rule refl)
  note after_update = write_keeps_active_sibling_synced [OF a b u n w]
  note after_finish = write_keeps_active_sibling_synced [OF a b f n w]
  have su: "siblings (messages (onUpdate (Some 1) ''third'' ?es ?st) ! 1) =
     Some [Some \<lparr>sib_role = Some Assistant, sib_content = ''first'', sib_stats = None\<rparr>,
           Some \<lparr>sib_role = Some Assistant, sib_content = ''third'',
                 sib_stats = Some \<lparr>totalTokens = 1, generationTime = 1 / 10, tokensPerSecond = 10\<rparr>\<rparr>]"
    by (simp add: onUpdate_def write_target_def actualIndex_def example_state_def Let_def
        overwrite_turn_def regenerated_turn_def js_get_def js_set_def)
  have sf: "siblings (messages (onFinish True (Some 1) ''chat1'' ''third'' ?es ?st) ! 1) =
     Some [Some \<lparr>sib_role = Some Assistant, sib_content = ''first'', sib_stats = None\<rparr>,
           Some \<lparr>sib_role = Some Assistant, sib_content = ''third'',
                 sib_stats = Some \<lparr>totalTokens = 1, generationTime = 1 / 10, tokensPerSecond = 10\<rparr>\<rparr>]"
    by (simp add: messages_onFinish write_target_def actualIndex_def example_state_def Let_def
        overwrite_turn_def regenerated_turn_def js_get_def js_set_def)
  have idx: "siblingIndex (messages ?st ! 1) = Some 1"
    by (simp add: example_state_def regenerated_turn_def)
  from after_update after_finish su sf idx show ?thesis
    by simp
qed

subsection \<open>C7: the first regeneration of a turn\<close>

text \<open>
  Claim C7. \<open>handleRegenerate\<close>, when no generation is in flight and the last turn is an
  assistant turn without siblings, gives that turn a siblings list of two entries: entry 0
  holds the turn's previous content and statistics, entry 1 is empty; the sibling index
  is 1, and the turn's own content is empty and its statistics are absent. The turns
  before it are unchanged, and the generation it starts targets that turn with exactly
  the turns before it as context.
\<close>

theorem first_regeneration:
  assumes "\<not> isLoading st" and "messages st \<noteq> []"
    and "role (last (messages st)) = Assistant"
    and "siblings (last (messages st)) = None"
  shows "length (messages (fst (handleRegenerate st))) = length (messages st) \<and>
     butlast (messages (fst (handleRegenerate st))) = butlast (messages st) \<and>
     siblings (last (messages (fst (handleRegenerate st)))) =
       Some [Some \<lparr>sib_role = Some Assistant, sib_content = content (last (messages st)),
                   sib_stats = stats (last (messages st))\<rparr>,
             Some \<lparr>sib_role = Some Assistant, sib_content = [], sib_stats = None\<rparr>] \<and>
     siblingIndex (last (messages (fst (handleRegenerate st)))) = Some 1 \<and>
     content (last (messages (fst (handleRegenerate st)))) = [] \<and>
     stats (last (messages (fst (handleRegenerate st)))) = None \<and>
     snd (handleRegenerate st) =
       (if truthy (currentChatId st)
        then Some \<lparr>messagesToUse = butlast (messages st), sessionId = the (currentChatId st),
                   targetIndex = Some (length (messages st) - 1)\<rparr>
        else None)"
proof -
  define ms where "ms = messages st"
  define m where "m = last ms"
  define m' where "m' = m\<lparr>siblings := Some [Some \<lparr>sib_role = Some Assistant, sib_content = content m,
                   sib_stats = stats m\<rparr>,
             Some \<lparr>sib_role = Some Assistant, sib_content = [], sib_stats = None\<rparr>],
         siblingIndex := Some 1, content := [], stats := None\<rparr>"
  from assms(2) have nth: "ms ! (length ms - 1) = m"
    by (simp add: ms_def m_def last_conv_nth)
  have bg: "messages (fst (processGeneration_begin ti s)) =
      (case ti of None \<Rightarrow> messages s @ [empty_assistant] | Some i \<Rightarrow> messages s)" for ti s
    by (simp add: processGeneration_begin_def Let_def split: option.splits)
  have msgs: "messages (fst (handleRegenerate st)) = ms[length ms - 1 := m']"
    using assms nth
    by (simp add: handleRegenerate_def Let_def start_generation_def bg m'_def
        ms_def [symmetric] m_def [symmetric] split: prod.splits option.splits)
       (auto simp: processGeneration_begin_def Let_def)
  have pend: "snd (handleRegenerate st) =
       (if truthy (currentChatId st)
        then Some \<lparr>messagesToUse = butlast ms, sessionId = the (currentChatId st),
                   targetIndex = Some (length ms - 1)\<rparr>
        else None)"
    using assms nth
    by (simp add: handleRegenerate_def Let_def start_generation_def
        ms_def [symmetric] m_def [symmetric] processGeneration_begin_def split: prod.splits)
  from assms(2) have ne: "ms \<noteq> []" by (simp add: ms_def)
  then have l: "last (ms[length ms - 1 := m']) = m'"
    by (simp add: last_conv_nth)
  from ne have bl: "butlast (ms[length ms - 1 := m']) = butlast ms"
    by (simp add: butlast_list_update)
  show ?thesis
    unfolding msgs pend l bl
    by (simp add: m'_def ms_def m_def)
qed

theorem first_regeneration_witness:
  "handleRegenerate (example_state [user_turn ''hi'', assistant_turn ''first''] False) =
     ((example_state
        [user_turn ''hi'',
         \<lparr>role = Assistant, content = [], images = None, stats = None,
          siblings = Some [Some \<lparr>sib_role = Some Assistant, sib_content = ''first'', sib_stats = None\<rparr>,
                           Some \<lparr>sib_role = Some Assistant, sib_content = [], sib_stats = None\<rparr>],
          siblingIndex = Some 1\<rparr>] True),
      Some \<lparr>messagesToUse = [user_turn ''hi''], sessionId = ''chat1'', targetIndex = Some 1\<rparr>) \<and>
   siblingIndex (last (messages (fst (handleRegenerate
      (example_state [user_turn ''hi'', assistant_turn ''first''] False))))) = Some 1"
proof -
  let ?st = "example_state [user_turn ''hi'', assistant_turn ''first''] False"
  have h: "\<not> isLoading ?st" "messages ?st \<noteq> []" "role (last (messages ?st)) = Assistant"
    "siblings (last (messages ?st)) = None"
    by (simp_all add: example_state_def assistant_turn_def empty_assistant_def)
  have run: "handleRegenerate ?st =
     ((example_state
        [user_turn ''hi'',
         \<lparr>role = Assistant, content = [], images = None, stats = None,
          siblings = Some [Some \<lparr>sib_role = Some Assistant, sib_content = ''first'', sib_stats = None\<rparr>,
                           Some \<lparr>sib_role = Some Assistant, sib_content = [], sib_stats = None\<rparr>],
          siblingIndex = Some 1\<rparr>] True),
      Some \<lparr>messagesToUse = [user_turn ''hi''], sessionId = ''chat1'', targetIndex = Some 1\<rparr>)"
    by (simp add: handleRegenerate_def example_state_def assistant_turn_def empty_assistant_def
        Let_def truthy_def start_generation_def processGeneration_begin_def)
  from first_regeneration [OF h] run show ?thesis
    by simp
qed

subsection \<open>C10: selecting a version that does not exist\<close>

text \<open>
  Claim C10. \<open>handleVersionChange\<close> on an existing turn that has no siblings list, or
  with a version index outside that turn's siblings list, returns normally and leaves the
  whole state as it was: the turns, the sessions and the saved conversations.
\<close>

theorem invalid_version_change_is_noop:
  assumes "index < length (messages st)"
    and "siblings (messages st ! index) = None \<or>
         (\<exists>sibs. siblings (messages st ! index) = Some sibs \<and> (v < 0 \<or> int (length sibs) \<le> v))"
  shows "handleVersionChange index v st = Inr st"
  using assms
  by (auto simp: handleVersionChange_def Let_def js_get_int_def js_get_def)

theorem invalid_version_change_is_noop_witness:
  "handleVersionChange 0 0 (example_state [user_turn ''hi'', regenerated_turn] False) =
     Inr (example_state [user_turn ''hi'', regenerated_turn] False) \<and>
   handleVersionChange 1 2 (example_state [user_turn ''hi'', regenerated_turn] False) =
     Inr (example_state [user_turn ''hi'', regenerated_turn] False) \<and>
   handleVersionChange 1 (- 1) (example_state [user_turn ''hi'', regenerated_turn] False) =
     Inr (example_state [user_turn ''hi'', regenerated_turn] False)"
proof -
  let ?st = "example_state [user_turn ''hi'', regenerated_turn] False"
  have i0: "0 < length (messages ?st)" and i1: "1 < length (messages ?st)"
    by (simp_all add: example_state_def)
  have a: "siblings (messages ?st ! 0) = None \<or>
         (\<exists>sibs. siblings (messages ?st ! 0) = Some sibs \<and> ((0::int) < 0 \<or> int (length sibs) \<le> 0))"
    by (simp add: example_state_def user_turn_def)
  have b: "siblings (messages ?st ! 1) = None \<or>
         (\<exists>sibs. siblings (messages ?st ! 1) = Some sibs \<and> ((2::int) < 0 \<or> int (length sibs) \<le> 2))"
    by (simp add: example_state_def regenerated_turn_def)
  have c: "siblings (messages ?st ! 1) = None \<or>
         (\<exists>sibs. siblings (messages ?st ! 1) = Some sibs \<and> ((- 1::int) < 0 \<or> int (length sibs) \<le> - 1))"
    by (simp add: example_state_def regenerated_turn_def)
  from invalid_version_change_is_noop [OF i0 a] invalid_version_change_is_noop [OF i1 b]
    invalid_version_change_is_noop [OF i1 c]
  show ?thesis by simp
qed

end
